theory Spec2Isabelle
  imports Complex_Main
begin

section \<open>Data model\<close>

text \<open>
  The four Mongoose collections of the financial tracker. Amounts are JavaScript Numbers
  in the source; the model holds the whole ones (whole currency units), as integers, and
  fractional amounts are outside it. The arithmetic of the transaction controller on account
  and category balances is rounded as the source's doubles are (\<open>js_add\<close>, \<open>js_sub\<close>,
  \<open>js_mul\<close> below); the sums of the goal controller and of the category rebuild are written
  with the exact operators, which they agree with up to \<open>2^53\<close>. Object ids are natural
  numbers. Timestamps
  (\<open>created_at\<close>, \<open>updated_at\<close>, \<open>target_date\<close>) take part in no ledger computation
  and are left out of the records.
\<close>

record transaction =
  tx_id :: nat
  id_akun :: nat
  tipe :: string
  deskripsi :: string
  nominal :: int
  category :: string
  tags :: "string list"

record goal =
  user_id :: nat
  title :: string
  description :: string
  target_amount :: int
  saved_amount :: int
  status :: string

text \<open>
  A Category document is identified by its unique compound index
  \<open>(user_id, name, type)\<close>; the collection is a map from that key to the balance.
  An Account is reduced to its balance.
\<close>

type_synonym category_key = "nat \<times> string \<times> string"
type_synonym category_store = "category_key \<rightharpoonup> int"

record store =
  accounts :: "nat \<rightharpoonup> int"
  transactions :: "transaction list"
  categories :: category_store
  goals :: "nat \<rightharpoonup> goal"
  next_id :: nat

text \<open>
  Request bodies: every field may be absent (\<open>None\<close>). A body is a plain object of
  fields, as the routes document it, with a number where the schema has a Number and a string
  where it has a String; values that Mongoose cannot cast and MongoDB update operators are
  outside the model.
\<close>

record tx_body =
  b_id_akun :: "nat option"
  b_tipe :: "string option"
  b_deskripsi :: "string option"
  b_nominal :: "int option"
  b_category :: "string option"
  b_tags :: "string list option"

record goal_body =
  g_user_id :: "nat option"
  g_title :: "string option"
  g_description :: "string option"
  g_target_amount :: "int option"
  g_saved_amount :: "int option"
  g_status :: "string option"

text \<open>
  The body of allocate and withdraw. \<open>fb_amount = None\<close> stands for a value that
  \<open>Number(req.body.amount)\<close> turns into NaN.
\<close>

record fund_body =
  fb_amount :: "int option"
  fb_note :: "string option"
  fb_create_transaction :: bool

datatype payload =
    Message string
  | Available string int
  | TransactionDoc transaction
  | GoalDoc "goal option"
  | CategoriesReport nat nat
  | ErrorMessage

datatype response = Response nat payload

section \<open>JavaScript helpers\<close>

text \<open>
  Truthiness of \<open>x || d\<close> on optional numbers and strings: 0, the empty string and a
  missing field are falsy.
\<close>

definition num_or :: "int option \<Rightarrow> int \<Rightarrow> int" where
  "num_or x d = (case x of None \<Rightarrow> d | Some n \<Rightarrow> (if n = 0 then d else n))"

definition str_or :: "string option \<Rightarrow> string \<Rightarrow> string" where
  "str_or x d = (case x of None \<Rightarrow> d | Some s \<Rightarrow> (if s = [] then d else s))"

text \<open>
  Number arithmetic. An amount is a whole Number, that is a double with an integer value.
  A sum, difference or product is the exact result rounded to the nearest double, ties to the
  even significand: \<open>expo a\<close> is the binary exponent of the unit in the last place of a
  magnitude \<open>a\<close>, and \<open>dbl\<close> rounds to a multiple of that unit. Up to \<open>2^53\<close> in
  magnitude nothing is rounded. Overflow to \<open>Infinity\<close> is outside the model.
\<close>

function expo :: "int \<Rightarrow> nat" where
  "expo a = (if a < 2 ^ 53 then 0 else Suc (expo (a div 2)))"
  by pat_completeness auto
termination
  by (relation "measure nat") auto

declare expo.simps [simp del]

definition dbl :: "int \<Rightarrow> int" where
  "dbl x =
     (let a = \<bar>x\<bar>;
          q = 2 ^ expo a;
          d = a div q;
          r = a mod q;
          m = (if 2 * r < q then d else if q < 2 * r then d + 1 else if even d then d else d + 1)
      in sgn x * (m * q))"

definition js_add :: "int \<Rightarrow> int \<Rightarrow> int" where
  "js_add a b = dbl (a + b)"

definition js_sub :: "int \<Rightarrow> int \<Rightarrow> int" where
  "js_sub a b = dbl (a - b)"

definition js_mul :: "int \<Rightarrow> int \<Rightarrow> int" where
  "js_mul a b = dbl (a * b)"

definition is_space :: "char \<Rightarrow> bool" where
  "is_space c = (c = CHR '' '' \<or> c = CHR 0x09 \<or> c = CHR 0x0A \<or> c = CHR 0x0B
                 \<or> c = CHR 0x0C \<or> c = CHR 0x0D)"

text \<open>\<open>!tag.trim()\<close>: the tag is empty or whitespace only.\<close>

definition blank :: "string \<Rightarrow> bool" where
  "blank s = list_all is_space s"

section \<open>Schema validation\<close>

text \<open>
  \<open>save()\<close> validates the whole document against its schema and throws a
  ValidationError (modelled as \<open>None\<close>) when a required path is missing or empty or an
  enum or \<open>min\<close> validator fails; the validation runs before the \<open>pre('save')\<close> hook. \<open>findByIdAndUpdate\<close> without \<open>runValidators\<close> validates
  nothing and runs no \<open>save\<close> middleware.
\<close>

definition tipe_enum :: "string \<Rightarrow> bool" where
  "tipe_enum t = (t = ''income'' \<or> t = ''expense'')"

definition category_valid :: "category_key \<Rightarrow> bool" where
  "category_valid k = (case k of (uid, cname, ctype) \<Rightarrow> cname \<noteq> [] \<and> tipe_enum ctype)"

definition save_category :: "category_key \<Rightarrow> int \<Rightarrow> category_store \<Rightarrow> category_store option" where
  "save_category k b cats = (if category_valid k then Some (cats(k \<mapsto> b)) else None)"

text \<open>\<open>new Transaction({...})\<close> of createTransaction followed by the validation of \<open>save\<close>.\<close>

definition new_transaction :: "nat \<Rightarrow> tx_body \<Rightarrow> transaction option" where
  "new_transaction i b =
     (case (b_id_akun b, b_tipe b, b_deskripsi b, b_nominal b) of
        (Some a, Some tp, Some d, Some n) \<Rightarrow>
          (if tipe_enum tp \<and> d \<noteq> [] then
             Some \<lparr> tx_id = i, id_akun = a, tipe = tp, deskripsi = d, nominal = n,
                    category = str_or (b_category b) ''lainnya'',
                    tags = (case b_tags b of None \<Rightarrow> [] | Some ts \<Rightarrow> ts) \<rparr>
           else None)
      | _ \<Rightarrow> None)"

section \<open>Transaction controller\<close>

fun updateCategoryBalances_loop ::
  "nat \<Rightarrow> string \<Rightarrow> int \<Rightarrow> string list \<Rightarrow> category_store \<Rightarrow> category_store option" where
  "updateCategoryBalances_loop uid tp amount [] cats = Some cats"
| "updateCategoryBalances_loop uid tp amount (tagName # rest) cats =
     (if blank tagName then updateCategoryBalances_loop uid tp amount rest cats
      else (case cats (uid, tagName, tp) of
              Some bal \<Rightarrow>
                (case save_category (uid, tagName, tp) (js_add bal amount) cats of
                   None \<Rightarrow> None
                 | Some cats' \<Rightarrow> updateCategoryBalances_loop uid tp amount rest cats')
            | None \<Rightarrow>
                (case save_category (uid, tagName, tp) amount cats of
                   None \<Rightarrow> None
                 | Some cats' \<Rightarrow> updateCategoryBalances_loop uid tp amount rest cats')))"

definition updateCategoryBalances ::
  "transaction \<Rightarrow> bool \<Rightarrow> category_store \<Rightarrow> category_store option" where
  "updateCategoryBalances t reverseAmount cats =
     (let multiplier = (if reverseAmount then - 1 else 1);
          amount = js_mul (nominal t) multiplier
      in updateCategoryBalances_loop (id_akun t) (tipe t) amount (tags t) cats)"

text \<open>The two \<open>if income / else if expense\<close> blocks on \<open>account.balance\<close>.\<close>

definition apply_effect :: "string \<Rightarrow> int \<Rightarrow> int \<Rightarrow> int" where
  "apply_effect tp n bal =
     (if tp = ''income'' then js_add bal n else if tp = ''expense'' then js_sub bal n else bal)"

definition revert_effect :: "string \<Rightarrow> int \<Rightarrow> int \<Rightarrow> int" where
  "revert_effect tp n bal =
     (if tp = ''income'' then js_sub bal n else if tp = ''expense'' then js_add bal n else bal)"

definition findById :: "nat \<Rightarrow> transaction list \<Rightarrow> transaction option" where
  "findById i txs = find (\<lambda>t. tx_id t = i) txs"

text \<open>The \<open>$set\<close> of the fields present in the body, unvalidated.\<close>

definition apply_body :: "tx_body \<Rightarrow> transaction \<Rightarrow> transaction" where
  "apply_body b t =
     t \<lparr> id_akun := (case b_id_akun b of None \<Rightarrow> id_akun t | Some a \<Rightarrow> a),
         tipe := (case b_tipe b of None \<Rightarrow> tipe t | Some tp \<Rightarrow> tp),
         deskripsi := (case b_deskripsi b of None \<Rightarrow> deskripsi t | Some d \<Rightarrow> d),
         nominal := (case b_nominal b of None \<Rightarrow> nominal t | Some n \<Rightarrow> n),
         category := (case b_category b of None \<Rightarrow> category t | Some c \<Rightarrow> c),
         tags := (case b_tags b of None \<Rightarrow> tags t | Some ts \<Rightarrow> ts) \<rparr>"

definition findByIdAndUpdate :: "nat \<Rightarrow> tx_body \<Rightarrow> transaction list \<Rightarrow> transaction list" where
  "findByIdAndUpdate i b txs = map (\<lambda>t. if tx_id t = i then apply_body b t else t) txs"

definition findByIdAndDelete :: "nat \<Rightarrow> transaction list \<Rightarrow> transaction list" where
  "findByIdAndDelete i txs = filter (\<lambda>t. tx_id t \<noteq> i) txs"

text \<open>
  Each handler returns the HTTP response and the store after the request. An aborted
  session leaves the store as it was.
\<close>

definition createTransaction :: "store \<Rightarrow> tx_body \<Rightarrow> response \<times> store" where
  "createTransaction s b =
     (case new_transaction (next_id s) b of
        None \<Rightarrow> (Response 400 ErrorMessage, s)
      | Some newTransaction \<Rightarrow>
          (case accounts s (id_akun newTransaction) of
             None \<Rightarrow> (Response 404 (Message ''Account not found''), s)
           | Some bal \<Rightarrow>
               (let bal' = apply_effect (tipe newTransaction) (nominal newTransaction) bal in
                case updateCategoryBalances newTransaction False (categories s) of
                  None \<Rightarrow> (Response 400 ErrorMessage, s)
                | Some cats' \<Rightarrow>
                    (Response 201 (TransactionDoc newTransaction),
                     s \<lparr> accounts := (accounts s)(id_akun newTransaction \<mapsto> bal'),
                         transactions := transactions s @ [newTransaction],
                         categories := cats',
                         next_id := Suc (next_id s) \<rparr>))))"

definition updateTransaction :: "store \<Rightarrow> nat \<Rightarrow> tx_body \<Rightarrow> response \<times> store" where
  "updateTransaction s i b =
     (case findById i (transactions s) of
        None \<Rightarrow> (Response 404 (Message ''Transaction not found''), s)
      | Some originalTransaction \<Rightarrow>
          (case accounts s (id_akun originalTransaction) of
             None \<Rightarrow> (Response 404 (Message ''Account not found''), s)
           | Some bal \<Rightarrow>
               (let bal1 = revert_effect (tipe originalTransaction) (nominal originalTransaction) bal in
                case updateCategoryBalances originalTransaction True (categories s) of
                  None \<Rightarrow> (Response 400 ErrorMessage, s)
                | Some cats1 \<Rightarrow>
                    (let updatedTransaction = apply_body b originalTransaction;
                         newTipe = str_or (b_tipe b) (tipe originalTransaction);
                         newNominal = num_or (b_nominal b) (nominal originalTransaction);
                         bal2 = apply_effect newTipe newNominal bal1
                     in case updateCategoryBalances updatedTransaction False cats1 of
                          None \<Rightarrow> (Response 400 ErrorMessage, s)
                        | Some cats2 \<Rightarrow>
                            (Response 200 (TransactionDoc updatedTransaction),
                             s \<lparr> accounts := (accounts s)(id_akun originalTransaction \<mapsto> bal2),
                                 transactions := findByIdAndUpdate i b (transactions s),
                                 categories := cats2 \<rparr>)))))"

definition deleteTransaction :: "store \<Rightarrow> nat \<Rightarrow> response \<times> store" where
  "deleteTransaction s i =
     (case findById i (transactions s) of
        None \<Rightarrow> (Response 404 (Message ''Transaction not found''), s)
      | Some t \<Rightarrow>
          (case accounts s (id_akun t) of
             None \<Rightarrow> (Response 404 (Message ''Account not found''), s)
           | Some bal \<Rightarrow>
               (let bal' = revert_effect (tipe t) (nominal t) bal in
                case updateCategoryBalances t True (categories s) of
                  None \<Rightarrow> (Response 500 ErrorMessage, s)
                | Some cats' \<Rightarrow>
                    (Response 200 (Message ''Transaction deleted successfully''),
                     s \<lparr> accounts := (accounts s)(id_akun t \<mapsto> bal'),
                         transactions := findByIdAndDelete i (transactions s),
                         categories := cats' \<rparr>))))"

section \<open>Category rebuild\<close>

text \<open>
  generateCategoriesFromTags. \<open>tagData\<close> is a JavaScript Map keyed by the string
  \<open>`${tag}-${tipe}`\<close>; it is an association list in insertion order, each value being
  \<open>(name, type, balance)\<close>.
\<close>

type_synonym tag_entry = "string \<times> string \<times> int"
type_synonym tag_data = "(string \<times> tag_entry) list"

definition tag_key :: "string \<Rightarrow> string \<Rightarrow> string" where
  "tag_key tag tp = tag @ ''-'' @ tp"

definition tagData_add :: "string \<Rightarrow> string \<Rightarrow> int \<Rightarrow> tag_data \<Rightarrow> tag_data" where
  "tagData_add tag tp n td =
     (let key = tag_key tag tp;
          td1 = (if map_of td key = None then td @ [(key, (tag, tp, 0))] else td)
      in map (\<lambda>(k, (nm, ty, bal)). if k = key then (k, (nm, ty, bal + n)) else (k, (nm, ty, bal))) td1)"

fun collect_tags :: "transaction \<Rightarrow> string list \<Rightarrow> tag_data \<Rightarrow> tag_data" where
  "collect_tags t [] td = td"
| "collect_tags t (tag # rest) td =
     (if blank tag then collect_tags t rest td
      else collect_tags t rest (tagData_add tag (tipe t) (nominal t) td))"

fun collect_transactions :: "transaction list \<Rightarrow> tag_data \<Rightarrow> tag_data" where
  "collect_transactions [] td = td"
| "collect_transactions (t # ts) td = collect_transactions ts (collect_tags t (tags t) td)"

text \<open>
  The loop over \<open>tagData.values()\<close>. \<open>existing\<close> is the list of categories read before
  the loop; the accumulator carries the collection and the numbers of created and updated
  categories.
\<close>

fun generate_loop ::
  "nat \<Rightarrow> category_store \<Rightarrow> tag_entry list \<Rightarrow> category_store \<times> nat \<times> nat
     \<Rightarrow> (category_store \<times> nat \<times> nat) option" where
  "generate_loop uid existing [] acc = Some acc"
| "generate_loop uid existing ((nm, ty, bal) # rest) (cats, created, updated) =
     (case existing (uid, nm, ty) of
        Some old \<Rightarrow>
          (case save_category (uid, nm, ty) bal cats of
             None \<Rightarrow> None
           | Some cats' \<Rightarrow> generate_loop uid existing rest (cats', created, Suc updated))
      | None \<Rightarrow>
          (case save_category (uid, nm, ty) bal cats of
             None \<Rightarrow> None
           | Some cats' \<Rightarrow> generate_loop uid existing rest (cats', Suc created, updated)))"

definition tagData_of :: "store \<Rightarrow> nat \<Rightarrow> tag_data" where
  "tagData_of s userId =
     collect_transactions (filter (\<lambda>t. id_akun t = userId) (transactions s)) []"

definition generateCategoriesFromTags :: "store \<Rightarrow> nat \<Rightarrow> response \<times> store" where
  "generateCategoriesFromTags s userId =
     (case generate_loop userId (categories s) (map snd (tagData_of s userId)) (categories s, 0, 0) of
        None \<Rightarrow> (Response 500 ErrorMessage, s)
      | Some (cats', created, updated) \<Rightarrow>
          (Response 200 (CategoriesReport created updated), s \<lparr> categories := cats' \<rparr>))"

section \<open>Goal model and controller\<close>

definition status_enum :: "string \<Rightarrow> bool" where
  "status_enum st = (st = ''active'' \<or> st = ''completed'' \<or> st = ''paused'')"

definition goal_valid :: "goal \<Rightarrow> bool" where
  "goal_valid g = (title g \<noteq> [] \<and> 0 \<le> target_amount g \<and> 0 \<le> saved_amount g \<and> status_enum (status g))"

text \<open>The \<open>pre('save')\<close> middleware.\<close>

definition pre_save :: "goal \<Rightarrow> goal" where
  "pre_save g = (if saved_amount g \<ge> target_amount g then g \<lparr> status := ''completed'' \<rparr> else g)"

definition save_goal :: "goal \<Rightarrow> goal option" where
  "save_goal g = (if goal_valid g then Some (pre_save g) else None)"

text \<open>
  The virtuals. \<open>Math.round\<close> rounds half up; the quotient is taken exactly here, where
  the source divides floating-point Numbers.
\<close>

definition js_round :: "rat \<Rightarrow> int" where
  "js_round x = \<lfloor>x + 1 / 2\<rfloor>"

definition progress :: "goal \<Rightarrow> int" where
  "progress g =
     (if target_amount g = 0 then 0
      else min (js_round (of_int (saved_amount g) / of_int (target_amount g) * 100)) 100)"

definition remaining_amount :: "goal \<Rightarrow> int" where
  "remaining_amount g = max (target_amount g - saved_amount g) 0"

definition createGoal :: "store \<Rightarrow> nat \<Rightarrow> goal_body \<Rightarrow> response \<times> store" where
  "createGoal s userId b =
     (case accounts s userId of
        None \<Rightarrow> (Response 404 (Message ''User account not found''), s)
      | Some acc \<Rightarrow>
          (case (g_title b, g_target_amount b) of
             (Some ttl, Some tgt) \<Rightarrow>
               (case save_goal \<lparr> user_id = userId, title = ttl,
                                 description = str_or (g_description b) [],
                                 target_amount = tgt,
                                 saved_amount = num_or (g_saved_amount b) 0,
                                 status = ''active'' \<rparr> of
                  None \<Rightarrow> (Response 400 ErrorMessage, s)
                | Some newGoal \<Rightarrow>
                    (Response 201 (GoalDoc (Some newGoal)),
                     s \<lparr> goals := (goals s)(next_id s \<mapsto> newGoal), next_id := Suc (next_id s) \<rparr>))
           | _ \<Rightarrow> (Response 400 ErrorMessage, s)))"

text \<open>
  updateGoal is \<open>findByIdAndUpdate\<close> with \<open>runValidators\<close>: the validators of the fields
  present in the body run, the \<open>save\<close> middleware does not.
\<close>

definition goal_body_valid :: "goal_body \<Rightarrow> bool" where
  "goal_body_valid b =
     ((case g_title b of None \<Rightarrow> True | Some ttl \<Rightarrow> ttl \<noteq> []) \<and>
      (case g_target_amount b of None \<Rightarrow> True | Some n \<Rightarrow> 0 \<le> n) \<and>
      (case g_saved_amount b of None \<Rightarrow> True | Some n \<Rightarrow> 0 \<le> n) \<and>
      (case g_status b of None \<Rightarrow> True | Some st \<Rightarrow> status_enum st))"

definition apply_goal_body :: "goal_body \<Rightarrow> goal \<Rightarrow> goal" where
  "apply_goal_body b g =
     g \<lparr> user_id := (case g_user_id b of None \<Rightarrow> user_id g | Some u \<Rightarrow> u),
         title := (case g_title b of None \<Rightarrow> title g | Some ttl \<Rightarrow> ttl),
         description := (case g_description b of None \<Rightarrow> description g | Some d \<Rightarrow> d),
         target_amount := (case g_target_amount b of None \<Rightarrow> target_amount g | Some n \<Rightarrow> n),
         saved_amount := (case g_saved_amount b of None \<Rightarrow> saved_amount g | Some n \<Rightarrow> n),
         status := (case g_status b of None \<Rightarrow> status g | Some st \<Rightarrow> st) \<rparr>"

definition updateGoal :: "store \<Rightarrow> nat \<Rightarrow> goal_body \<Rightarrow> response \<times> store" where
  "updateGoal s i b =
     (if \<not> goal_body_valid b then (Response 400 ErrorMessage, s)
      else (case goals s i of
              None \<Rightarrow> (Response 404 (Message ''Goal not found''), s)
            | Some g \<Rightarrow>
                (let updatedGoal = apply_goal_body b g
                 in (Response 200 (GoalDoc (Some updatedGoal)),
                     s \<lparr> goals := (goals s)(i \<mapsto> updatedGoal) \<rparr>))))"

definition deleteGoal :: "store \<Rightarrow> nat \<Rightarrow> response \<times> store" where
  "deleteGoal s i =
     (case goals s i of
        None \<Rightarrow> (Response 404 (Message ''Goal not found''), s)
      | Some g \<Rightarrow> (Response 200 (Message ''Goal deleted successfully''),
                   s \<lparr> goals := (goals s)(i := None) \<rparr>))"

text \<open>\<open>goal.title.toLowerCase().replace(/\s+/g, '-')\<close>, on ASCII.\<close>

definition to_lower :: "char \<Rightarrow> char" where
  "to_lower c = (let n = (of_char c :: nat) in if 65 \<le> n \<and> n \<le> 90 then char_of (n + 32) else c)"

fun replace_spaces :: "bool \<Rightarrow> string \<Rightarrow> string" where
  "replace_spaces in_run [] = []"
| "replace_spaces in_run (c # cs) =
     (if is_space c then (if in_run then replace_spaces True cs else CHR ''-'' # replace_spaces True cs)
      else c # replace_spaces False cs)"

definition title_tag :: "string \<Rightarrow> string" where
  "title_tag ttl = replace_spaces False (map to_lower ttl)"

definition note_suffix :: "string option \<Rightarrow> string" where
  "note_suffix n = (case n of None \<Rightarrow> [] | Some txt \<Rightarrow> (if txt = [] then [] else '' - '' @ txt))"

definition transaction_valid :: "transaction \<Rightarrow> bool" where
  "transaction_valid t = (tipe_enum (tipe t) \<and> deskripsi t \<noteq> [])"

definition save_transaction :: "transaction \<Rightarrow> transaction option" where
  "save_transaction t = (if transaction_valid t then Some t else None)"

definition allocateFunds :: "store \<Rightarrow> nat \<Rightarrow> fund_body \<Rightarrow> response \<times> store" where
  "allocateFunds s i b =
     (case goals s i of
        None \<Rightarrow> (Response 404 (Message ''Goal not found''), s)
      | Some goal0 \<Rightarrow>
          (case fb_amount b of
             None \<Rightarrow> (Response 400 (Message ''Invalid allocation amount''), s)
           | Some amount \<Rightarrow>
               (if amount \<le> 0 then (Response 400 (Message ''Invalid allocation amount''), s)
                else (case save_goal (goal0 \<lparr> saved_amount := saved_amount goal0 + amount \<rparr>) of
                        None \<Rightarrow> (Response 400 ErrorMessage, s)
                      | Some goal1 \<Rightarrow>
                          (let s1 = s \<lparr> goals := (goals s)(i \<mapsto> goal1) \<rparr> in
                           if fb_create_transaction b then
                             (case save_transaction
                                     \<lparr> tx_id = next_id s, id_akun = user_id goal1, tipe = ''expense'',
                                       deskripsi = ''Goal allocation: '' @ title goal1 @ note_suffix (fb_note b),
                                       nominal = amount, category = ''savings'',
                                       tags = [''goal'', ''savings'', title_tag (title goal1)] \<rparr> of
                                None \<Rightarrow> (Response 400 ErrorMessage, s)
                              | Some t \<Rightarrow>
                                  (let s2 = s1 \<lparr> transactions := transactions s1 @ [t],
                                                 next_id := Suc (next_id s1) \<rparr>;
                                       s3 = (case accounts s2 (user_id goal1) of
                                               Some bal \<Rightarrow> s2 \<lparr> accounts := (accounts s2)(user_id goal1 \<mapsto> bal - amount) \<rparr>
                                             | None \<Rightarrow> s2)
                                   in (Response 200 (GoalDoc (goals s3 i)), s3)))
                           else (Response 200 (GoalDoc (goals s1 i)), s1))))))"

definition withdrawFunds :: "store \<Rightarrow> nat \<Rightarrow> fund_body \<Rightarrow> response \<times> store" where
  "withdrawFunds s i b =
     (case goals s i of
        None \<Rightarrow> (Response 404 (Message ''Goal not found''), s)
      | Some goal0 \<Rightarrow>
          (case fb_amount b of
             None \<Rightarrow> (Response 400 (Message ''Invalid withdrawal amount''), s)
           | Some amount \<Rightarrow>
               (if amount \<le> 0 then (Response 400 (Message ''Invalid withdrawal amount''), s)
                else if amount > saved_amount goal0 then
                  (Response 400 (Available ''Withdrawal amount exceeds saved amount'' (saved_amount goal0)), s)
                else (case save_goal (goal0 \<lparr> saved_amount := saved_amount goal0 - amount \<rparr>) of
                        None \<Rightarrow> (Response 400 ErrorMessage, s)
                      | Some goal1 \<Rightarrow>
                          (let s1 = s \<lparr> goals := (goals s)(i \<mapsto> goal1) \<rparr> in
                           if fb_create_transaction b then
                             (case save_transaction
                                     \<lparr> tx_id = next_id s, id_akun = user_id goal1, tipe = ''income'',
                                       deskripsi = ''Goal withdrawal: '' @ title goal1 @ note_suffix (fb_note b),
                                       nominal = amount, category = ''savings'',
                                       tags = [''goal'', ''withdrawal'', title_tag (title goal1)] \<rparr> of
                                None \<Rightarrow> (Response 400 ErrorMessage, s)
                              | Some t \<Rightarrow>
                                  (let s2 = s1 \<lparr> transactions := transactions s1 @ [t],
                                                 next_id := Suc (next_id s1) \<rparr>;
                                       s3 = (case accounts s2 (user_id goal1) of
                                               Some bal \<Rightarrow> s2 \<lparr> accounts := (accounts s2)(user_id goal1 \<mapsto> bal + amount) \<rparr>
                                             | None \<Rightarrow> s2)
                                   in (Response 200 (GoalDoc (goals s3 i)), s3)))
                           else (Response 200 (GoalDoc (goals s1 i)), s1))))))"

section \<open>Requests and runs\<close>

text \<open>The endpoints of the routers, and the store after a sequence of requests.\<close>

datatype request =
    CreateTransaction tx_body
  | UpdateTransaction nat tx_body
  | DeleteTransaction nat
  | GenerateCategoriesFromTags nat
  | CreateGoal nat goal_body
  | UpdateGoal nat goal_body
  | DeleteGoal nat
  | AllocateFunds nat fund_body
  | WithdrawFunds nat fund_body

fun handle :: "store \<Rightarrow> request \<Rightarrow> response \<times> store" where
  "handle s (CreateTransaction b) = createTransaction s b"
| "handle s (UpdateTransaction i b) = updateTransaction s i b"
| "handle s (DeleteTransaction i) = deleteTransaction s i"
| "handle s (GenerateCategoriesFromTags u) = generateCategoriesFromTags s u"
| "handle s (CreateGoal u b) = createGoal s u b"
| "handle s (UpdateGoal i b) = updateGoal s i b"
| "handle s (DeleteGoal i) = deleteGoal s i"
| "handle s (AllocateFunds i b) = allocateFunds s i b"
| "handle s (WithdrawFunds i b) = withdrawFunds s i b"

fun run :: "store \<Rightarrow> request list \<Rightarrow> store" where
  "run s [] = s"
| "run s (r # rs) = run (snd (handle s r)) rs"

section \<open>Ledger properties\<close>

text \<open>
  The sums the ledger is compared with: the signed sum of an account's stored transactions
  (\<open>+nominal\<close> for \<open>income\<close>, \<open>-nominal\<close> for \<open>expense\<close>), and the sum of \<open>nominal\<close> over
  the account's stored transactions that carry a tag and have a kind.
\<close>

definition signed_nominal :: "transaction \<Rightarrow> int" where
  "signed_nominal t =
     (if tipe t = ''income'' then nominal t else if tipe t = ''expense'' then - nominal t else 0)"

definition ledger_sum :: "store \<Rightarrow> nat \<Rightarrow> int" where
  "ledger_sum s a = sum_list (map signed_nominal (filter (\<lambda>t. id_akun t = a) (transactions s)))"

definition tag_total :: "store \<Rightarrow> category_key \<Rightarrow> int" where
  "tag_total s k =
     (case k of (uid, cname, ctype) \<Rightarrow>
        sum_list (map nominal
          (filter (\<lambda>t. id_akun t = uid \<and> tipe t = ctype \<and> cname \<in> set (tags t)) (transactions s))))"

text \<open>
  Balance conservation as an invariant of the store: every account balance is the signed
  sum of the account's transactions. Transaction ids are unique and below the next id to be
  issued. A request is outside the falsy fallback of updateTransaction when it is not an
  update carrying \<open>nominal = 0\<close>, an empty \<open>tipe\<close> or an \<open>id_akun\<close>.
\<close>

definition balanced :: "store \<Rightarrow> bool" where
  "balanced s = (\<forall>a bal. accounts s a = Some bal \<longrightarrow> bal = ledger_sum s a)"

definition ids_fresh :: "store \<Rightarrow> bool" where
  "ids_fresh s = (distinct (map tx_id (transactions s)) \<and> (\<forall>t\<in>set (transactions s). tx_id t < next_id s))"

definition plain_update :: "request \<Rightarrow> bool" where
  "plain_update r =
     (case r of
        UpdateTransaction i b \<Rightarrow> b_nominal b \<noteq> Some 0 \<and> b_tipe b \<noteq> Some [] \<and> b_id_akun b = None
      | _ \<Rightarrow> True)"

definition lsum :: "transaction list \<Rightarrow> nat \<Rightarrow> int" where
  "lsum txs a = sum_list (map signed_nominal (filter (\<lambda>t. id_akun t = a) txs))"

text \<open>
  Category totals as an invariant of the store: what a transaction contributes to a category
  (its \<open>nominal\<close>, once for each occurrence of the tag), the total over a list of
  transactions, and the balance of a category, a missing category counting as 0. No category
  has a blank name, and every category holds the total of its tag and kind. The requests
  that keep this: all but a rebuild and an allocation or withdrawal that records a transaction.
\<close>

definition occ :: "transaction \<Rightarrow> category_key \<Rightarrow> int" where
  "occ t k =
     (case k of (uid, nm, ty) \<Rightarrow>
        if id_akun t = uid \<and> tipe t = ty then nominal t * int (count_list (tags t) nm) else 0)"

definition occ_total :: "transaction list \<Rightarrow> category_key \<Rightarrow> int" where
  "occ_total txs k = (\<Sum>t\<leftarrow>txs. occ t k)"

definition cat_bal :: "category_store \<Rightarrow> category_key \<Rightarrow> int" where
  "cat_bal cats k = (case cats k of None \<Rightarrow> 0 | Some bal \<Rightarrow> bal)"

definition cats_match :: "store \<Rightarrow> bool" where
  "cats_match s =
     (\<forall>uid nm ty. (blank nm \<longrightarrow> categories s (uid, nm, ty) = None) \<and>
                  (\<not> blank nm \<longrightarrow>
                     cat_bal (categories s) (uid, nm, ty) = occ_total (transactions s) (uid, nm, ty)))"

definition keeps_categories :: "request \<Rightarrow> bool" where
  "keeps_categories r =
     (case r of
        AllocateFunds i b \<Rightarrow> \<not> fb_create_transaction b
      | WithdrawFunds i b \<Rightarrow> \<not> fb_create_transaction b
      | GenerateCategoriesFromTags u \<Rightarrow> False
      | _ \<Rightarrow> True)"

text \<open>How often the category loop touches the category \<open>k\<close> on the tags \<open>tgs\<close>.\<close>

definition tag_hits :: "nat \<Rightarrow> string \<Rightarrow> string list \<Rightarrow> category_key \<Rightarrow> nat" where
  "tag_hits uid tp tgs k = length (filter (\<lambda>tg. \<not> blank tg \<and> (uid, tg, tp) = k) tgs)"


text \<open>
  The range in which the Number arithmetic of the transaction controller is exact: every
  account balance is at most \<open>2^51\<close> in absolute value, every category balance at most
  \<open>2^52\<close>, and every stored transaction has \<open>(number of tags + 1) * \<bar>nominal\<bar> \<le> 2^51\<close>. A
  sequence of requests runs in range when the store it starts from and the store after each
  request are in range.
\<close>

definition in_range :: "store \<Rightarrow> bool" where
  "in_range s =
     ((\<forall>a bal. accounts s a = Some bal \<longrightarrow> \<bar>bal\<bar> \<le> 2 ^ 51) \<and>
      (\<forall>k bal. categories s k = Some bal \<longrightarrow> \<bar>bal\<bar> \<le> 2 ^ 52) \<and>
      (\<forall>t\<in>set (transactions s). (int (length (tags t)) + 1) * \<bar>nominal t\<bar> \<le> 2 ^ 51))"

fun run_in_range :: "store \<Rightarrow> request list \<Rightarrow> bool" where
  "run_in_range s [] = in_range s"
| "run_in_range s (r # rs) = (in_range s \<and> run_in_range (snd (handle s r)) rs)"

section \<open>Rebuild: auxiliary notions\<close>

text \<open>
  The effect of one pass of the rebuild loop on the collection, the validity of an entry and
  the category it writes; the balance recorded in \<open>tagData\<close> under a key; the sums the
  rebuild is compared with: per key of the Map, and per tag and kind, where a transaction
  counts once for each occurrence of the tag in its list of tags.
\<close>

definition put_entry :: "nat \<Rightarrow> tag_entry \<Rightarrow> category_store \<Rightarrow> category_store" where
  "put_entry uid e cats = (case e of (nm, ty, bal) \<Rightarrow> cats((uid, nm, ty) \<mapsto> bal))"

fun entry_valid :: "nat \<Rightarrow> tag_entry \<Rightarrow> bool" where
  "entry_valid uid (nm, ty, bal) = category_valid (uid, nm, ty)"

fun entry_kv :: "nat \<Rightarrow> tag_entry \<Rightarrow> category_key \<times> int" where
  "entry_kv uid (nm, ty, bal) = ((uid, nm, ty), bal)"

definition td_bal :: "tag_data \<Rightarrow> string \<Rightarrow> int" where
  "td_bal td key = (case map_of td key of None \<Rightarrow> 0 | Some (nm, ty, bal) \<Rightarrow> bal)"

definition key_sum_tags :: "transaction \<Rightarrow> string list \<Rightarrow> string \<Rightarrow> int" where
  "key_sum_tags t tgs key =
     (\<Sum>tg\<leftarrow>tgs. if \<not> blank tg \<and> tag_key tg (tipe t) = key then nominal t else 0)"

definition key_sum :: "transaction list \<Rightarrow> string \<Rightarrow> int" where
  "key_sum txs key = (\<Sum>t\<leftarrow>txs. key_sum_tags t (tags t) key)"

definition tag_kind_sum :: "transaction list \<Rightarrow> string \<Rightarrow> string \<Rightarrow> int" where
  "tag_kind_sum txs nm ty =
     (\<Sum>t\<leftarrow>txs. if tipe t = ty then nominal t * int (count_list (tags t) nm) else 0)"

definition pairs_of :: "transaction list \<Rightarrow> (string \<times> string) set" where
  "pairs_of txs = {(tg, tipe t) | t tg. t \<in> set txs \<and> tg \<in> set (tags t) \<and> \<not> blank tg}"

definition entries_ok :: "(string \<times> string) set \<Rightarrow> tag_data \<Rightarrow> bool" where
  "entries_ok S td = (\<forall>(k, nm, ty, bal) \<in> set td. k = tag_key nm ty \<and> (nm, ty) \<in> S)"

definition bump :: "string \<Rightarrow> int \<Rightarrow> string \<times> tag_entry \<Rightarrow> string \<times> tag_entry" where
  "bump key n = (\<lambda>(k, (nm, ty, bal)). if k = key then (k, (nm, ty, bal + n)) else (k, (nm, ty, bal)))"

section \<open>Example stores and requests\<close>

definition no_goal_body :: goal_body where
  "no_goal_body = \<lparr> g_user_id = None, g_title = None, g_description = None,
                    g_target_amount = None, g_saved_amount = None, g_status = None \<rparr>"

definition funds :: "int \<Rightarrow> bool \<Rightarrow> fund_body" where
  "funds a ct = \<lparr> fb_amount = Some a, fb_note = None, fb_create_transaction = ct \<rparr>"

definition dana :: goal where
  "dana = \<lparr> user_id = 1, title = ''Dana Darurat'', description = [], target_amount = 100,
            saved_amount = 100, status = ''completed'' \<rparr>"

definition goal_store :: store where
  "goal_store = \<lparr> accounts = [1 \<mapsto> 500], transactions = [], categories = Map.empty,
                  goals = [7 \<mapsto> dana], next_id = 8 \<rparr>"

definition tabungan :: goal where
  "tabungan = \<lparr> user_id = 1, title = ''Tabungan'', description = [], target_amount = 50,
                saved_amount = 0, status = ''active'' \<rparr>"

definition ledger0 :: store where
  "ledger0 = \<lparr> accounts = [1 \<mapsto> 0], transactions = [], categories = Map.empty,
               goals = [8 \<mapsto> tabungan], next_id = 100 \<rparr>"

definition tx_request :: "string \<Rightarrow> int \<Rightarrow> string list \<Rightarrow> tx_body" where
  "tx_request tp n tgs = \<lparr> b_id_akun = Some 1, b_tipe = Some tp, b_deskripsi = Some ''catatan'',
                           b_nominal = Some n, b_category = None, b_tags = Some tgs \<rparr>"

definition no_tx_body :: tx_body where
  "no_tx_body = \<lparr> b_id_akun = None, b_tipe = None, b_deskripsi = None, b_nominal = None,
                  b_category = None, b_tags = None \<rparr>"

definition gaji :: transaction where
  "gaji = \<lparr> tx_id = 100, id_akun = 1, tipe = ''income'', deskripsi = ''gaji'', nominal = 1000,
            category = ''lainnya'', tags = [] \<rparr>"

definition ledger1 :: store where
  "ledger1 = \<lparr> accounts = [1 \<mapsto> 1000], transactions = [gaji], categories = Map.empty,
               goals = Map.empty, next_id = 101 \<rparr>"


definition makan :: transaction where
  "makan = \<lparr> tx_id = 100, id_akun = 1, tipe = ''expense'', deskripsi = ''makan siang'', nominal = 300,
             category = ''lainnya'', tags = [''food''] \<rparr>"

definition ledger2 :: store where
  "ledger2 = \<lparr> accounts = [1 \<mapsto> 700], transactions = [makan],
               categories = [(1, ''food'', ''expense'') \<mapsto> 300],
               goals = Map.empty, next_id = 101 \<rparr>"

definition same_kind_amount :: tx_body where
  "same_kind_amount = no_tx_body \<lparr> b_tipe := Some ''expense'', b_nominal := Some 300 \<rparr>"

definition jajan :: transaction where
  "jajan = \<lparr> tx_id = 101, id_akun = 1, tipe = ''expense'', deskripsi = ''jajan'', nominal = 50,
             category = ''lainnya'', tags = [''food'', ''snack''] \<rparr>"

definition ledger3 :: store where
  "ledger3 = \<lparr> accounts = [1 \<mapsto> 650], transactions = [makan, jajan, gaji],
               categories = [(1, ''food'', ''expense'') \<mapsto> 999],
               goals = Map.empty, next_id = 102 \<rparr>"

text \<open>The stores reached in the two scenarios below.\<close>

definition after_salary :: store where
  "after_salary = snd (createTransaction ledger0 (tx_request ''income'' 1000 []))"

definition after_zero_update :: store where
  "after_zero_update = snd (updateTransaction after_salary 100 (no_tx_body \<lparr> b_nominal := Some 0 \<rparr>))"

definition after_saving :: store where
  "after_saving = snd (createTransaction ledger0 (tx_request ''expense'' 10 [''savings'']))"

definition after_allocation :: store where
  "after_allocation = snd (allocateFunds after_saving 8 (funds 5 True))"

text \<open>A store whose only transaction has an amount at the end of the safe range.\<close>

definition cicilan :: transaction where
  "cicilan = \<lparr> tx_id = 100, id_akun = 1, tipe = ''expense'', deskripsi = ''cicilan'',
               nominal = 9007199254740992, category = ''lainnya'', tags = [] \<rparr>"

definition ledger4 :: store where
  "ledger4 = \<lparr> accounts = [1 \<mapsto> 1], transactions = [cicilan], categories = Map.empty,
               goals = Map.empty, next_id = 101 \<rparr>"

section \<open>Number arithmetic within the safe range\<close>

lemma expo_small: "a < 9007199254740992 \<Longrightarrow> expo a = 0"
  by (subst expo.simps) simp

lemma expo_53: "expo 9007199254740992 = 1"
  by (subst expo.simps) (simp add: expo_small)

lemma dbl_exact: "\<bar>x\<bar> \<le> 2 ^ 53 \<Longrightarrow> dbl x = x"
proof (cases "\<bar>x\<bar> < 2 ^ 53")
  case True
  then have "expo \<bar>x\<bar> = 0" by (simp add: expo_small)
  then show ?thesis by (simp add: dbl_def Let_def mult_sgn_abs)
next
  case False
  assume "\<bar>x\<bar> \<le> 2 ^ 53"
  with False have a: "\<bar>x\<bar> = 9007199254740992" by simp
  then have "sgn x * 9007199254740992 = x" by (metis mult_sgn_abs)
  with a show ?thesis by (simp add: dbl_def Let_def expo_53)
qed

lemma js_add_exact: "\<bar>a + b\<bar> \<le> 2 ^ 53 \<Longrightarrow> js_add a b = a + b"
  by (simp add: js_add_def dbl_exact)

lemma js_sub_exact: "\<bar>a - b\<bar> \<le> 2 ^ 53 \<Longrightarrow> js_sub a b = a - b"
  by (simp add: js_sub_def dbl_exact)

lemma js_mul_exact: "\<bar>a * b\<bar> \<le> 2 ^ 53 \<Longrightarrow> js_mul a b = a * b"
  by (simp add: js_mul_def dbl_exact)

lemmas js_exact = js_add_exact js_sub_exact js_mul_exact

text \<open>Beyond the safe range a sum is rounded: \<open>2^53 + 1\<close> is not a double.\<close>

lemma js_add_rounds: "js_add 1 9007199254740992 = 9007199254740992"
  by code_simp

section \<open>Goals: validity, bounds and completion\<close>

lemma withdrawFunds_cases:
  "withdrawFunds s i b = (r, s') \<Longrightarrow>
     s' = s \<or>
     (\<exists>g a g1. goals s i = Some g \<and> fb_amount b = Some a \<and> 0 < a \<and> a \<le> saved_amount g \<and>
        save_goal (g \<lparr> saved_amount := saved_amount g - a \<rparr>) = Some g1 \<and>
        goals s' = (goals s)(i \<mapsto> g1))"
  by (auto simp: withdrawFunds_def Let_def split: option.splits if_splits)



















text \<open>
  C9 (completion is sticky under withdrawal). A goal whose status is \<open>completed\<close> still
  has that status after any withdrawFunds request; a withdrawal that commits and drops
  \<open>saved_amount\<close> below \<open>target_amount\<close> changes the saved amount and nothing else.
\<close>

theorem withdraw_keeps_completed:
  assumes "goals s i = Some g" and "status g = ''completed''"
  shows "(\<exists>g'. goals (snd (withdrawFunds s i b)) i = Some g' \<and> status g' = ''completed'') \<and>
         (fb_amount b = Some a \<and> 0 < a \<and> a \<le> saved_amount g \<and>
          saved_amount g - a < target_amount g \<and> title g \<noteq> [] \<longrightarrow>
            goals (snd (withdrawFunds s i b)) i = Some (g \<lparr> saved_amount := saved_amount g - a \<rparr>))"
proof -
  obtain r s' where rs: "withdrawFunds s i b = (r, s')" by (cases "withdrawFunds s i b")
  from withdrawFunds_cases[OF rs] assms
  have 1: "\<exists>g'. goals s' i = Some g' \<and> status g' = ''completed''"
    by (auto simp: save_goal_def pre_save_def split: if_splits)
  have 2: "fb_amount b = Some a \<and> 0 < a \<and> a \<le> saved_amount g \<and>
           saved_amount g - a < target_amount g \<and> title g \<noteq> [] \<longrightarrow>
             goals s' i = Some (g \<lparr> saved_amount := saved_amount g - a \<rparr>)"
    using rs assms
    by (auto simp: withdrawFunds_def Let_def save_goal_def pre_save_def goal_valid_def status_enum_def
        save_transaction_def transaction_valid_def tipe_enum_def split: option.splits if_splits)
  from 1 2 rs show ?thesis by simp
qed

theorem withdraw_keeps_completed_witness:
  "goals goal_store 7 = Some dana \<and> status dana = ''completed'' \<and>
   saved_amount dana - 30 < target_amount dana \<and>
   goals (snd (withdrawFunds goal_store 7 (funds 30 False))) 7 = Some (dana \<lparr> saved_amount := 70 \<rparr>) \<and>
   status (dana \<lparr> saved_amount := 70 \<rparr>) = ''completed''"
proof -
  have h: "goals goal_store 7 = Some dana" by (simp add: goal_store_def)
  have c: "status dana = ''completed''" by (simp add: dana_def)
  from withdraw_keeps_completed[OF h c, of "funds 30 False" 30]
  show ?thesis using h c by (simp add: funds_def dana_def)
qed

section \<open>Transaction validation\<close>

lemma blank_nonempty: "\<not> blank tg \<Longrightarrow> tg \<noteq> []"
  by (auto simp: blank_def)

lemma loop_succeeds:
  "tipe_enum tp \<Longrightarrow> \<exists>cats'. updateCategoryBalances_loop uid tp amt tgs cats = Some cats'"
  by (induction tgs arbitrary: cats)
     (auto simp: save_category_def category_valid_def blank_nonempty split: option.splits)

lemma updateCategoryBalances_succeeds:
  "tipe_enum (tipe t) \<Longrightarrow> \<exists>cats'. updateCategoryBalances t r cats = Some cats'"
  by (simp add: updateCategoryBalances_def Let_def loop_succeeds)

lemma loop_blank:
  "list_all blank tgs \<Longrightarrow> updateCategoryBalances_loop uid tp amt tgs cats = Some cats"
  by (induction tgs) auto

lemma updateCategoryBalances_blank:
  "list_all blank (tags t) \<Longrightarrow> updateCategoryBalances t r cats = Some cats"
  by (simp add: updateCategoryBalances_def Let_def loop_blank)

lemma loop_invalid_tipe:
  "\<not> tipe_enum tp \<Longrightarrow> \<not> list_all blank tgs \<Longrightarrow>
     updateCategoryBalances_loop uid tp amt tgs cats = None"
  by (induction tgs)
     (auto simp: save_category_def category_valid_def split: option.splits)

lemma updateCategoryBalances_invalid_tipe:
  "\<not> tipe_enum (tipe t) \<Longrightarrow> \<not> list_all blank (tags t) \<Longrightarrow>
     updateCategoryBalances t r cats = None"
  by (simp add: updateCategoryBalances_def Let_def loop_invalid_tipe)

lemma new_transaction_None:
  "(case b_tipe b of None \<Rightarrow> True | Some tp \<Rightarrow> tp \<noteq> ''income'' \<and> tp \<noteq> ''expense'') \<Longrightarrow>
     new_transaction i b = None"
  by (auto simp: new_transaction_def tipe_enum_def split: option.splits)

text \<open>
  C3, as the code has it. A createTransaction request whose \<open>tipe\<close> is missing or is
  neither \<open>income\<close> nor \<open>expense\<close> is answered with status 400 and leaves the store
  unchanged: no transaction, no account balance and no category balance changes. The sign of
  \<open>nominal\<close> is not validated: a request with a valid \<open>tipe\<close>, a description and an
  existing account is stored and applied with status 201 whatever its \<open>nominal\<close>.
\<close>

theorem createTransaction_validation:
  "((case b_tipe b of None \<Rightarrow> True | Some tp \<Rightarrow> tp \<noteq> ''income'' \<and> tp \<noteq> ''expense'') \<longrightarrow>
      createTransaction s b = (Response 400 ErrorMessage, s)) \<and>
   (b_id_akun b = Some a \<and> b_tipe b = Some tp \<and> tipe_enum tp \<and> b_deskripsi b = Some d \<and> d \<noteq> [] \<and>
    b_nominal b = Some n \<and> accounts s a = Some bal \<longrightarrow>
      (\<exists>t. fst (createTransaction s b) = Response 201 (TransactionDoc t) \<and> nominal t = n \<and>
           transactions (snd (createTransaction s b)) = transactions s @ [t] \<and>
           accounts (snd (createTransaction s b)) a = Some (apply_effect tp n bal)))"
proof (intro conjI impI)
  assume "case b_tipe b of None \<Rightarrow> True | Some tp \<Rightarrow> tp \<noteq> ''income'' \<and> tp \<noteq> ''expense''"
  then show "createTransaction s b = (Response 400 ErrorMessage, s)"
    by (simp add: createTransaction_def new_transaction_None)
next
  assume a: "b_id_akun b = Some a \<and> b_tipe b = Some tp \<and> tipe_enum tp \<and> b_deskripsi b = Some d \<and> d \<noteq> [] \<and>
    b_nominal b = Some n \<and> accounts s a = Some bal"
  then obtain t where t: "new_transaction (next_id s) b = Some t" "id_akun t = a" "tipe t = tp" "nominal t = n"
    by (auto simp: new_transaction_def)
  with a obtain cats' where "updateCategoryBalances t False (categories s) = Some cats'"
    using updateCategoryBalances_succeeds[of t False "categories s"] by auto
  with t a show "\<exists>t. fst (createTransaction s b) = Response 201 (TransactionDoc t) \<and> nominal t = n \<and>
           transactions (snd (createTransaction s b)) = transactions s @ [t] \<and>
           accounts (snd (createTransaction s b)) a = Some (apply_effect tp n bal)"
    by (simp add: createTransaction_def Let_def)
qed

theorem createTransaction_validation_witness:
  "createTransaction ledger0 (tx_request ''transfer'' 10 []) = (Response 400 ErrorMessage, ledger0) \<and>
   (\<exists>t. fst (createTransaction ledger0 (tx_request ''expense'' 0 [])) = Response 201 (TransactionDoc t) \<and>
        nominal t = 0 \<and>
        transactions (snd (createTransaction ledger0 (tx_request ''expense'' 0 []))) = transactions ledger0 @ [t] \<and>
        accounts (snd (createTransaction ledger0 (tx_request ''expense'' 0 []))) 1 = Some 0)"
proof -
  have 1: "case b_tipe (tx_request ''transfer'' 10 []) of None \<Rightarrow> True
           | Some tp \<Rightarrow> tp \<noteq> ''income'' \<and> tp \<noteq> ''expense''"
    by (simp add: tx_request_def)
  have 2: "b_id_akun (tx_request ''expense'' 0 []) = Some 1 \<and> b_tipe (tx_request ''expense'' 0 []) = Some ''expense'' \<and>
      tipe_enum ''expense'' \<and> b_deskripsi (tx_request ''expense'' 0 []) = Some ''catatan'' \<and> ''catatan'' \<noteq> [] \<and>
      b_nominal (tx_request ''expense'' 0 []) = Some 0 \<and> accounts ledger0 1 = Some 0"
    by (simp add: tx_request_def tipe_enum_def ledger0_def)
  have 3: "apply_effect ''expense'' 0 0 = 0" by (simp add: apply_effect_def js_exact)
  from createTransaction_validation[of "tx_request ''transfer'' 10 []" ledger0] 1
  have a: "createTransaction ledger0 (tx_request ''transfer'' 10 []) = (Response 400 ErrorMessage, ledger0)"
    by blast
  from createTransaction_validation[of "tx_request ''expense'' 0 []" ledger0 1 "''expense''" "''catatan''" 0 0] 2 3
  have b: "\<exists>t. fst (createTransaction ledger0 (tx_request ''expense'' 0 [])) = Response 201 (TransactionDoc t) \<and>
        nominal t = 0 \<and>
        transactions (snd (createTransaction ledger0 (tx_request ''expense'' 0 []))) = transactions ledger0 @ [t] \<and>
        accounts (snd (createTransaction ledger0 (tx_request ''expense'' 0 []))) 1 = Some 0"
    by simp
  from a b show ?thesis by blast
qed

text \<open>
  C3 as stated fails: a request of \<open>nominal = -5\<close> on an existing account is answered with
  status 201, the transaction is stored and the balance moves from 0 to -5.
\<close>

theorem createTransaction_nonpositive_counterexample:
  "fst (createTransaction ledger0 (tx_request ''income'' (- 5) [])) =
     Response 201 (TransactionDoc \<lparr> tx_id = 100, id_akun = 1, tipe = ''income'', deskripsi = ''catatan'',
                                     nominal = - 5, category = ''lainnya'', tags = [] \<rparr>) \<and>
   transactions (snd (createTransaction ledger0 (tx_request ''income'' (- 5) []))) =
     [\<lparr> tx_id = 100, id_akun = 1, tipe = ''income'', deskripsi = ''catatan'',
        nominal = - 5, category = ''lainnya'', tags = [] \<rparr>] \<and>
   accounts ledger0 1 = Some 0 \<and>
   accounts (snd (createTransaction ledger0 (tx_request ''income'' (- 5) []))) 1 = Some (- 5)"
  by (simp add: createTransaction_def ledger0_def tx_request_def new_transaction_def tipe_enum_def
      str_or_def updateCategoryBalances_def apply_effect_def js_exact Let_def)

section \<open>Goal auto-completion\<close>

text \<open>
  C5 (goal auto-completion) at the input where the code departs from it. A goal with target
  50, saved 0 and status \<open>active\<close> is updated through updateGoal with
  \<open>saved_amount = 100\<close>: the request is answered with status 200 and the goal is stored
  with \<open>saved_amount \<ge> target_amount\<close> and status \<open>active\<close>, where \<open>save\<close> of the
  same document sets \<open>completed\<close>.
\<close>

theorem updateGoal_bypasses_completion:
  "updateGoal ledger0 8 (no_goal_body \<lparr> g_saved_amount := Some 100 \<rparr>) =
     (Response 200 (GoalDoc (Some (tabungan \<lparr> saved_amount := 100 \<rparr>))),
      ledger0 \<lparr> goals := [8 \<mapsto> tabungan \<lparr> saved_amount := 100 \<rparr>] \<rparr>) \<and>
   target_amount (tabungan \<lparr> saved_amount := 100 \<rparr>) = 50 \<and>
   status (tabungan \<lparr> saved_amount := 100 \<rparr>) = ''active'' \<and>
   map_option status (save_goal (tabungan \<lparr> saved_amount := 100 \<rparr>)) = Some ''completed''"
  by (simp add: updateGoal_def ledger0_def no_goal_body_def goal_body_valid_def apply_goal_body_def
      tabungan_def Let_def save_goal_def goal_valid_def status_enum_def pre_save_def)

text \<open>Every path through \<open>save\<close> completes the goal, and the progress virtual is clamped.\<close>

lemma save_goal_completes:
  "save_goal g = Some g' \<Longrightarrow> saved_amount g \<ge> target_amount g \<Longrightarrow> status g' = ''completed''"
  by (auto simp: save_goal_def pre_save_def split: if_splits)

lemma progress_le_100: "progress g \<le> 100"
  by (simp add: progress_def)

lemma progress_zero_target: "target_amount g = 0 \<Longrightarrow> progress g = 0"
  by (simp add: progress_def)

lemma progress_full:
  assumes "0 < target_amount g" and "target_amount g \<le> saved_amount g"
  shows "progress g = 100"
proof -
  have "(1::rat) \<le> of_int (saved_amount g) / of_int (target_amount g)"
    using assms by (simp add: le_divide_eq)
  from mult_right_mono[OF this, of 100]
  have "(100::rat) \<le> of_int (saved_amount g) / of_int (target_amount g) * 100" by simp
  then have "100 \<le> js_round (of_int (saved_amount g) / of_int (target_amount g) * 100)"
    unfolding js_round_def by (simp add: le_floor_iff)
  with assms show ?thesis by (simp add: progress_def)
qed

section \<open>Updating a transaction\<close>

lemma apply_body_id: "tx_id (apply_body b t) = tx_id t"
  by (simp add: apply_body_def)

lemma findById_update:
  "findById i txs = Some t \<Longrightarrow> findById i (findByIdAndUpdate i b txs) = Some (apply_body b t)"
  by (induction txs) (auto simp: findById_def findByIdAndUpdate_def apply_body_id split: if_splits)

lemma updateTransaction_commit:
  assumes "findById i (transactions s) = Some t" and "accounts s (id_akun t) = Some bal"
    and "updateCategoryBalances t True (categories s) = Some cats1"
    and "updateCategoryBalances (apply_body b t) False cats1 = Some cats2"
  shows "updateTransaction s i b =
           (Response 200 (TransactionDoc (apply_body b t)),
            s \<lparr> accounts := (accounts s)(id_akun t \<mapsto>
                    apply_effect (str_or (b_tipe b) (tipe t)) (num_or (b_nominal b) (nominal t))
                      (revert_effect (tipe t) (nominal t) bal)),
                transactions := findByIdAndUpdate i b (transactions s),
                categories := cats2 \<rparr>)"
  using assms by (simp add: updateTransaction_def Let_def)

text \<open>
  C10 (falsy fallback of updateTransaction), as the code has it. For a stored transaction
  with a valid \<open>tipe\<close> whose account exists: an update whose body sets \<open>nominal\<close> to 0 is
  committed, the transaction is stored with \<open>nominal = 0\<close>, and the amount applied again to
  the account balance is the original \<open>nominal\<close>. An update whose body sets \<open>tipe\<close> to the
  empty string falls back in the same way only when the updated transaction has no non-blank
  tag: it is then committed, the transaction is stored with the empty \<open>tipe\<close>, and the
  balance is applied again under the original \<open>tipe\<close>. When the updated transaction has a
  non-blank tag, the update is answered with 400 and the store is left as it was: the
  Category of the empty \<open>tipe\<close> fails validation and the session is aborted.
\<close>

theorem updateTransaction_falsy_fallback:
  assumes "findById i (transactions s) = Some t" and "accounts s (id_akun t) = Some bal"
    and "tipe_enum (tipe t)"
  shows "(b_nominal b = Some 0 \<and> tipe_enum (tipe (apply_body b t)) \<longrightarrow>
            fst (updateTransaction s i b) = Response 200 (TransactionDoc (apply_body b t)) \<and>
            findById i (transactions (snd (updateTransaction s i b))) = Some (apply_body b t) \<and>
            nominal (apply_body b t) = 0 \<and>
            accounts (snd (updateTransaction s i b)) (id_akun t) =
              Some (apply_effect (tipe (apply_body b t)) (nominal t) (revert_effect (tipe t) (nominal t) bal))) \<and>
         (b_tipe b = Some [] \<and> list_all blank (tags (apply_body b t)) \<longrightarrow>
            fst (updateTransaction s i b) = Response 200 (TransactionDoc (apply_body b t)) \<and>
            findById i (transactions (snd (updateTransaction s i b))) = Some (apply_body b t) \<and>
            tipe (apply_body b t) = [] \<and>
            accounts (snd (updateTransaction s i b)) (id_akun t) =
              Some (apply_effect (tipe t) (num_or (b_nominal b) (nominal t))
                      (revert_effect (tipe t) (nominal t) bal))) \<and>
         (b_tipe b = Some [] \<and> \<not> list_all blank (tags (apply_body b t)) \<longrightarrow>
            updateTransaction s i b = (Response 400 ErrorMessage, s))"
proof -
  from assms(3) obtain cats1 where c1: "updateCategoryBalances t True (categories s) = Some cats1"
    using updateCategoryBalances_succeeds by blast
  have 1: "b_nominal b = Some 0 \<and> tipe_enum (tipe (apply_body b t)) \<longrightarrow>
            fst (updateTransaction s i b) = Response 200 (TransactionDoc (apply_body b t)) \<and>
            findById i (transactions (snd (updateTransaction s i b))) = Some (apply_body b t) \<and>
            nominal (apply_body b t) = 0 \<and>
            accounts (snd (updateTransaction s i b)) (id_akun t) =
              Some (apply_effect (tipe (apply_body b t)) (nominal t) (revert_effect (tipe t) (nominal t) bal))"
  proof
    assume a: "b_nominal b = Some 0 \<and> tipe_enum (tipe (apply_body b t))"
    then obtain cats2 where c2: "updateCategoryBalances (apply_body b t) False cats1 = Some cats2"
      using updateCategoryBalances_succeeds by blast
    from a have tp: "str_or (b_tipe b) (tipe t) = tipe (apply_body b t)"
      by (auto simp: str_or_def apply_body_def tipe_enum_def split: option.splits)
    from a have n: "num_or (b_nominal b) (nominal t) = nominal t" "nominal (apply_body b t) = 0"
      by (simp_all add: num_or_def apply_body_def)
    show "fst (updateTransaction s i b) = Response 200 (TransactionDoc (apply_body b t)) \<and>
            findById i (transactions (snd (updateTransaction s i b))) = Some (apply_body b t) \<and>
            nominal (apply_body b t) = 0 \<and>
            accounts (snd (updateTransaction s i b)) (id_akun t) =
              Some (apply_effect (tipe (apply_body b t)) (nominal t) (revert_effect (tipe t) (nominal t) bal))"
      by (simp add: updateTransaction_commit[OF assms(1,2) c1 c2] findById_update[OF assms(1)] tp n)
  qed
  have 2: "b_tipe b = Some [] \<and> list_all blank (tags (apply_body b t)) \<longrightarrow>
            fst (updateTransaction s i b) = Response 200 (TransactionDoc (apply_body b t)) \<and>
            findById i (transactions (snd (updateTransaction s i b))) = Some (apply_body b t) \<and>
            tipe (apply_body b t) = [] \<and>
            accounts (snd (updateTransaction s i b)) (id_akun t) =
              Some (apply_effect (tipe t) (num_or (b_nominal b) (nominal t))
                      (revert_effect (tipe t) (nominal t) bal))"
  proof
    assume a: "b_tipe b = Some [] \<and> list_all blank (tags (apply_body b t))"
    then have c2: "updateCategoryBalances (apply_body b t) False cats1 = Some cats1"
      by (simp add: updateCategoryBalances_blank)
    from a have tp: "str_or (b_tipe b) (tipe t) = tipe t" "tipe (apply_body b t) = []"
      by (simp_all add: str_or_def apply_body_def)
    show "fst (updateTransaction s i b) = Response 200 (TransactionDoc (apply_body b t)) \<and>
            findById i (transactions (snd (updateTransaction s i b))) = Some (apply_body b t) \<and>
            tipe (apply_body b t) = [] \<and>
            accounts (snd (updateTransaction s i b)) (id_akun t) =
              Some (apply_effect (tipe t) (num_or (b_nominal b) (nominal t))
                      (revert_effect (tipe t) (nominal t) bal))"
      by (simp add: updateTransaction_commit[OF assms(1,2) c1 c2] findById_update[OF assms(1)] tp)
  qed
  have 3: "b_tipe b = Some [] \<and> \<not> list_all blank (tags (apply_body b t)) \<longrightarrow>
            updateTransaction s i b = (Response 400 ErrorMessage, s)"
  proof
    assume a: "b_tipe b = Some [] \<and> \<not> list_all blank (tags (apply_body b t))"
    then have "\<not> tipe_enum (tipe (apply_body b t))"
      by (simp add: apply_body_def tipe_enum_def)
    with a have "updateCategoryBalances (apply_body b t) False cats1 = None"
      by (simp add: updateCategoryBalances_invalid_tipe)
    with assms(1,2) c1 show "updateTransaction s i b = (Response 400 ErrorMessage, s)"
      by (simp add: updateTransaction_def Let_def)
  qed
  from 1 2 3 show ?thesis by blast
qed

theorem updateTransaction_falsy_fallback_witness:
  "findById 100 (transactions ledger1) = Some gaji \<and> accounts ledger1 1 = Some 1000 \<and>
   tipe_enum (tipe gaji) \<and>
   fst (updateTransaction ledger1 100 (no_tx_body \<lparr> b_nominal := Some 0 \<rparr>)) =
     Response 200 (TransactionDoc (gaji \<lparr> nominal := 0 \<rparr>)) \<and>
   findById 100 (transactions (snd (updateTransaction ledger1 100 (no_tx_body \<lparr> b_nominal := Some 0 \<rparr>)))) =
     Some (gaji \<lparr> nominal := 0 \<rparr>) \<and>
   accounts (snd (updateTransaction ledger1 100 (no_tx_body \<lparr> b_nominal := Some 0 \<rparr>))) 1 = Some 1000 \<and>
   fst (updateTransaction ledger1 100 (no_tx_body \<lparr> b_tipe := Some [] \<rparr>)) =
     Response 200 (TransactionDoc (gaji \<lparr> tipe := [] \<rparr>)) \<and>
   findById 100 (transactions (snd (updateTransaction ledger1 100 (no_tx_body \<lparr> b_tipe := Some [] \<rparr>)))) =
     Some (gaji \<lparr> tipe := [] \<rparr>) \<and>
   accounts (snd (updateTransaction ledger1 100 (no_tx_body \<lparr> b_tipe := Some [] \<rparr>))) 1 = Some 1000 \<and>
   findById 101 (transactions ledger3) = Some jajan \<and> accounts ledger3 1 = Some 650 \<and>
   tipe_enum (tipe jajan) \<and>
   \<not> list_all blank (tags (apply_body (no_tx_body \<lparr> b_tipe := Some [] \<rparr>) jajan)) \<and>
   updateTransaction ledger3 101 (no_tx_body \<lparr> b_tipe := Some [] \<rparr>) = (Response 400 ErrorMessage, ledger3)"
proof -
  have h1: "findById 100 (transactions ledger1) = Some gaji"
    by (simp add: findById_def ledger1_def gaji_def)
  have h2: "accounts ledger1 (id_akun gaji) = Some 1000" by (simp add: ledger1_def gaji_def)
  have h3: "tipe_enum (tipe gaji)" by (simp add: tipe_enum_def gaji_def)
  have e: "id_akun gaji = 1"
    "apply_body (no_tx_body \<lparr> b_nominal := Some 0 \<rparr>) gaji = gaji \<lparr> nominal := 0 \<rparr>"
    "apply_body (no_tx_body \<lparr> b_tipe := Some [] \<rparr>) gaji = gaji \<lparr> tipe := [] \<rparr>"
    "tipe_enum (tipe (gaji \<lparr> nominal := 0 \<rparr>))" "list_all blank (tags (gaji \<lparr> tipe := [] \<rparr>))"
    "apply_effect (tipe (gaji \<lparr> nominal := 0 \<rparr>)) (nominal gaji) (revert_effect (tipe gaji) (nominal gaji) 1000) = 1000"
    "apply_effect (tipe gaji) (num_or (b_nominal (no_tx_body \<lparr> b_tipe := Some [] \<rparr>)) (nominal gaji))
       (revert_effect (tipe gaji) (nominal gaji) 1000) = 1000"
    by (simp_all add: gaji_def no_tx_body_def apply_body_def tipe_enum_def apply_effect_def
        revert_effect_def num_or_def js_exact)
  have j1: "findById 101 (transactions ledger3) = Some jajan"
    by (simp add: findById_def ledger3_def makan_def jajan_def)
  have j2: "accounts ledger3 (id_akun jajan) = Some 650" "accounts ledger3 1 = Some 650"
    by (simp_all add: ledger3_def jajan_def)
  have j3: "tipe_enum (tipe jajan)" by (simp add: tipe_enum_def jajan_def)
  have j4: "b_tipe (no_tx_body \<lparr> b_tipe := Some [] \<rparr>) = Some []"
    "\<not> list_all blank (tags (apply_body (no_tx_body \<lparr> b_tipe := Some [] \<rparr>) jajan))"
    by (simp_all add: no_tx_body_def apply_body_def jajan_def blank_def is_space_def)
  from updateTransaction_falsy_fallback[OF j1 j2(1) j3, of "no_tx_body \<lparr> b_tipe := Some [] \<rparr>"] j4
  have j: "updateTransaction ledger3 101 (no_tx_body \<lparr> b_tipe := Some [] \<rparr>) =
             (Response 400 ErrorMessage, ledger3)"
    by blast
  from updateTransaction_falsy_fallback[OF h1 h2 h3, of "no_tx_body \<lparr> b_nominal := Some 0 \<rparr>"]
       updateTransaction_falsy_fallback[OF h1 h2 h3, of "no_tx_body \<lparr> b_tipe := Some [] \<rparr>"]
  have "fst (updateTransaction ledger1 100 (no_tx_body \<lparr> b_nominal := Some 0 \<rparr>)) =
     Response 200 (TransactionDoc (gaji \<lparr> nominal := 0 \<rparr>)) \<and>
   findById 100 (transactions (snd (updateTransaction ledger1 100 (no_tx_body \<lparr> b_nominal := Some 0 \<rparr>)))) =
     Some (gaji \<lparr> nominal := 0 \<rparr>) \<and>
   accounts (snd (updateTransaction ledger1 100 (no_tx_body \<lparr> b_nominal := Some 0 \<rparr>))) 1 = Some 1000 \<and>
   fst (updateTransaction ledger1 100 (no_tx_body \<lparr> b_tipe := Some [] \<rparr>)) =
     Response 200 (TransactionDoc (gaji \<lparr> tipe := [] \<rparr>)) \<and>
   findById 100 (transactions (snd (updateTransaction ledger1 100 (no_tx_body \<lparr> b_tipe := Some [] \<rparr>)))) =
     Some (gaji \<lparr> tipe := [] \<rparr>) \<and>
   accounts (snd (updateTransaction ledger1 100 (no_tx_body \<lparr> b_tipe := Some [] \<rparr>))) 1 = Some 1000"
    using h1 h2 h3 e by (simp add: no_tx_body_def)
  with h1 h2 h3 j1 j2(2) j3 j4(2) j show ?thesis by (simp add: ledger1_def)
qed

text \<open>
  C10 as stated fails for a transaction that carries a tag: the fallback to the original
  \<open>tipe\<close> is never committed. On the expense \<open>makan\<close> of 300 tagged \<open>food\<close>, an update
  whose body sets \<open>tipe\<close> to the empty string is answered with 400, and the transaction, the
  account balance and the categories are left as they were.
\<close>

theorem updateTransaction_empty_tipe_counterexample:
  "findById 100 (transactions ledger2) = Some makan \<and> tags makan = [''food''] \<and>
   accounts ledger2 (id_akun makan) = Some 700 \<and>
   updateTransaction ledger2 100 (no_tx_body \<lparr> b_tipe := Some [] \<rparr>) = (Response 400 ErrorMessage, ledger2)"
  by (simp add: updateTransaction_def findById_def ledger2_def makan_def no_tx_body_def
        updateCategoryBalances_def js_exact Let_def blank_def is_space_def save_category_def
        category_valid_def tipe_enum_def apply_body_def)

section \<open>Allocating funds with a transaction record\<close>





section \<open>Reversal and reapplication\<close>

lemma tag_hits_Nil: "tag_hits uid tp [] k = 0"
  by (simp add: tag_hits_def)

lemma tag_hits_Cons:
  "tag_hits uid tp (tg # tgs) k =
     (if \<not> blank tg \<and> (uid, tg, tp) = k then Suc (tag_hits uid tp tgs k) else tag_hits uid tp tgs k)"
  by (simp add: tag_hits_def)

lemma loop_effect:
  assumes "updateCategoryBalances_loop uid tp amt tgs cats = Some cats'"
    and "\<forall>k. \<bar>cat_bal cats k\<bar> + int (length tgs) * \<bar>amt\<bar> \<le> 2 ^ 53"
  shows "cats' k = (if tag_hits uid tp tgs k = 0 then cats k
                    else Some (cat_bal cats k + amt * int (tag_hits uid tp tgs k)))"
  using assms
proof (induction tgs arbitrary: cats)
  case Nil
  then show ?case by (simp add: tag_hits_Nil)
next
  case (Cons tg tgs)
  have step: "\<bar>c\<bar> + int (length tgs) * \<bar>amt\<bar> \<le> \<bar>c\<bar> + int (length (tg # tgs)) * \<bar>amt\<bar>" for c
    by (simp add: algebra_simps)
  show ?case
  proof (cases "blank tg")
    case True
    with Cons.prems(1) have r: "updateCategoryBalances_loop uid tp amt tgs cats = Some cats'" by simp
    have bnd: "\<forall>k. \<bar>cat_bal cats k\<bar> + int (length tgs) * \<bar>amt\<bar> \<le> 2 ^ 53"
      using Cons.prems(2) step by (meson order_trans)
    have "cats' k = (if tag_hits uid tp tgs k = 0 then cats k
                    else Some (cat_bal cats k + amt * int (tag_hits uid tp tgs k)))"
      using r bnd by (rule Cons.IH)
    with True show ?thesis by (simp add: tag_hits_Cons)
  next
    case False
    let ?k0 = "(uid, tg, tp)"
    let ?v = "cat_bal cats ?k0 + amt"
    let ?c0 = "cats(?k0 \<mapsto> ?v)"
    from Cons.prems(2) have b0: "\<bar>cat_bal cats ?k0\<bar> + (\<bar>amt\<bar> + int (length tgs) * \<bar>amt\<bar>) \<le> 2 ^ 53"
      by (simp add: algebra_simps)
    then have small: "\<bar>?v\<bar> \<le> 2 ^ 53"
      by (smt (verit) abs_triangle_ineq mult_nonneg_nonneg abs_ge_zero of_nat_0_le_iff)
    then have ex: "js_add (cat_bal cats ?k0) amt = ?v" by (rule js_add_exact)
    from Cons.prems(1) False ex have r: "updateCategoryBalances_loop uid tp amt tgs ?c0 = Some cats'"
      by (auto simp: save_category_def cat_bal_def split: option.splits if_splits)
    have bnd: "\<forall>k. \<bar>cat_bal ?c0 k\<bar> + int (length tgs) * \<bar>amt\<bar> \<le> 2 ^ 53"
    proof
      fix k
      show "\<bar>cat_bal ?c0 k\<bar> + int (length tgs) * \<bar>amt\<bar> \<le> 2 ^ 53"
      proof (cases "k = ?k0")
        case True
        then have "cat_bal ?c0 k = ?v" by (simp add: cat_bal_def)
        moreover have "\<bar>?v\<bar> \<le> \<bar>cat_bal cats ?k0\<bar> + \<bar>amt\<bar>" by (rule abs_triangle_ineq)
        ultimately show ?thesis using b0 by simp
      next
        case False
        then have "cat_bal ?c0 k = cat_bal cats k" by (simp add: cat_bal_def)
        with Cons.prems(2) step[of "cat_bal cats k"] show ?thesis by (metis order_trans)
      qed
    qed
    have "cats' k = (if tag_hits uid tp tgs k = 0 then ?c0 k
                    else Some (cat_bal ?c0 k + amt * int (tag_hits uid tp tgs k)))"
      using r bnd by (rule Cons.IH)
    with False show ?thesis
      by (auto simp: tag_hits_Cons cat_bal_def algebra_simps)
  qed
qed

lemma tag_hits_le: "tag_hits uid tp tgs k \<le> length tgs"
  by (simp add: tag_hits_def)

lemma hits_bound: "\<bar>n * int (tag_hits uid tp tgs k)\<bar> \<le> int (length tgs) * \<bar>n\<bar>"
proof -
  have "\<bar>n * int (tag_hits uid tp tgs k)\<bar> = int (tag_hits uid tp tgs k) * \<bar>n\<bar>"
    by (simp add: abs_mult)
  also have "\<dots> \<le> int (length tgs) * \<bar>n\<bar>"
    by (intro mult_right_mono) (simp_all add: tag_hits_le)
  finally show ?thesis .
qed

lemma effect_roundtrip:
  assumes "\<bar>bal\<bar> + \<bar>n\<bar> \<le> 2 ^ 53"
  shows "apply_effect tp n (revert_effect tp n bal) = bal"
proof -
  from assms have 1: "\<bar>bal - n\<bar> \<le> 2 ^ 53" "\<bar>bal + n\<bar> \<le> 2 ^ 53" "\<bar>bal\<bar> \<le> 2 ^ 53"
    by linarith+
  then have "js_add (js_sub bal n) n = bal" "js_sub (js_add bal n) n = bal"
    by (simp_all add: js_exact)
  then show ?thesis by (simp add: apply_effect_def revert_effect_def)
qed

lemma updateCategoryBalances_roundtrip:
  assumes c1: "updateCategoryBalances t True cats = Some cats1"
    and c2: "updateCategoryBalances t' False cats1 = Some cats2"
    and eq: "id_akun t' = id_akun t" "tipe t' = tipe t" "nominal t' = nominal t" "tags t' = tags t"
    and bnd: "\<forall>k. \<bar>cat_bal cats k\<bar> + 2 * int (length (tags t)) * \<bar>nominal t\<bar> \<le> 2 ^ 53"
  shows "cats2 k = (if tag_hits (id_akun t) (tipe t) (tags t) k = 0 then cats k
                    else Some (cat_bal cats k))"
proof (cases "tags t = []")
  case True
  with c1 c2 eq show ?thesis
    by (simp add: updateCategoryBalances_def Let_def tag_hits_Nil)
next
  case False
  let ?n = "nominal t"
  let ?l = "int (length (tags t))"
  let ?h = "tag_hits (id_akun t) (tipe t) (tags t)"
  from False have l: "1 \<le> ?l" by (cases "tags t") simp_all
  have nn: "0 \<le> ?l * \<bar>?n\<bar>" by simp
  have tw: "2 * ?l * \<bar>?n\<bar> = ?l * \<bar>?n\<bar> + ?l * \<bar>?n\<bar>" by simp
  from l have "\<bar>?n\<bar> \<le> ?l * \<bar>?n\<bar>"
    using mult_right_mono[of 1 ?l "\<bar>?n\<bar>"] by simp
  moreover from spec[OF bnd, of k] have "2 * ?l * \<bar>?n\<bar> \<le> 2 ^ 53"
    using abs_ge_zero[of "cat_bal cats k"] by linarith
  ultimately have n: "\<bar>?n\<bar> \<le> 2 ^ 53" using nn tw by linarith
  then have m: "js_mul ?n (- 1) = - ?n" "js_mul ?n 1 = ?n"
    by (simp_all add: js_mul_exact)
  from c1 m have p1: "updateCategoryBalances_loop (id_akun t) (tipe t) (- ?n) (tags t) cats = Some cats1"
    by (simp add: updateCategoryBalances_def Let_def)
  from c2 m eq have p2: "updateCategoryBalances_loop (id_akun t) (tipe t) ?n (tags t) cats1 = Some cats2"
    by (simp add: updateCategoryBalances_def Let_def)
  have b1: "\<forall>k. \<bar>cat_bal cats k\<bar> + ?l * \<bar>- ?n\<bar> \<le> 2 ^ 53"
  proof
    fix k
    from bnd have "\<bar>cat_bal cats k\<bar> + 2 * ?l * \<bar>?n\<bar> \<le> 2 ^ 53" by blast
    with nn tw have "\<bar>cat_bal cats k\<bar> + ?l * \<bar>?n\<bar> \<le> 2 ^ 53" by linarith
    then show "\<bar>cat_bal cats k\<bar> + ?l * \<bar>- ?n\<bar> \<le> 2 ^ 53" by (simp only: abs_minus_cancel)
  qed
  note e1 = loop_effect[OF p1 b1]
  have v1: "cat_bal cats1 k = (if ?h k = 0 then cat_bal cats k else cat_bal cats k - ?n * int (?h k))" for k
    using e1[of k] by (simp add: cat_bal_def)
  have b2: "\<forall>k. \<bar>cat_bal cats1 k\<bar> + ?l * \<bar>?n\<bar> \<le> 2 ^ 53"
  proof
    fix k
    from bnd have a: "\<bar>cat_bal cats k\<bar> + 2 * ?l * \<bar>?n\<bar> \<le> 2 ^ 53" by blast
    have "\<bar>cat_bal cats1 k\<bar> \<le> \<bar>cat_bal cats k\<bar> + ?l * \<bar>?n\<bar>"
      using v1[of k] hits_bound[of ?n "id_akun t" "tipe t" "tags t" k] nn by (auto split: if_splits)
    with a tw show "\<bar>cat_bal cats1 k\<bar> + ?l * \<bar>?n\<bar> \<le> 2 ^ 53" by linarith
  qed
  from loop_effect[OF p2 b2, of k] e1[of k] v1[of k] show ?thesis
    by (auto simp: cat_bal_def split: if_splits)
qed

text \<open>
  C7, as the code has it. An update of a stored transaction whose body carries the same
  \<open>tipe\<close> and \<open>nominal\<close> (or leaves them out) reverts and re-applies the same amount, each
  step rounded as a Number. Every account balance is left as it was when the balance of the
  owning account and the amount are whole numbers with \<open>\<bar>balance\<bar> + \<bar>nominal\<bar> \<le> 2^53\<close>.
  When the body also leaves the tags and the owning account as they were, and each category
  balance \<open>c\<close> satisfies \<open>\<bar>c\<bar> + 2 * (number of tags) * \<bar>nominal\<bar> \<le> 2^53\<close>, every stored
  category keeps its balance; a category that was missing for one of the transaction's
  non-blank tags is created with balance 0.
\<close>

theorem update_identical_is_neutral:
  assumes "findById i (transactions s) = Some t"
    and "b_tipe b = None \<or> b_tipe b = Some (tipe t)"
    and "b_nominal b = None \<or> b_nominal b = Some (nominal t)"
  shows "((\<forall>bal. accounts s (id_akun t) = Some bal \<longrightarrow> \<bar>bal\<bar> + \<bar>nominal t\<bar> \<le> 2 ^ 53) \<longrightarrow>
            accounts (snd (updateTransaction s i b)) = accounts s) \<and>
         ((b_tags b = None \<or> b_tags b = Some (tags t)) \<and>
          (b_id_akun b = None \<or> b_id_akun b = Some (id_akun t)) \<and>
          (\<forall>k. \<bar>cat_bal (categories s) k\<bar> + 2 * int (length (tags t)) * \<bar>nominal t\<bar> \<le> 2 ^ 53) \<longrightarrow>
            (\<forall>k v. categories s k = Some v \<longrightarrow> categories (snd (updateTransaction s i b)) k = Some v) \<and>
            (\<forall>k. categories s k = None \<longrightarrow>
                   categories (snd (updateTransaction s i b)) k = None \<or>
                   categories (snd (updateTransaction s i b)) k = Some 0))"
proof -
  from assms(2,3) have f: "str_or (b_tipe b) (tipe t) = tipe t" "num_or (b_nominal b) (nominal t) = nominal t"
    by (auto simp: str_or_def num_or_def)
  have acc: "accounts (snd (updateTransaction s i b)) = accounts s"
    if rng: "\<forall>bal. accounts s (id_akun t) = Some bal \<longrightarrow> \<bar>bal\<bar> + \<bar>nominal t\<bar> \<le> 2 ^ 53"
  proof (cases "accounts s (id_akun t)")
    case None
    with assms(1) show ?thesis by (simp add: updateTransaction_def)
  next
    case (Some bal)
    with rng have "apply_effect (tipe t) (nominal t) (revert_effect (tipe t) (nominal t) bal) = bal"
      by (simp add: effect_roundtrip)
    with assms(1) Some f show ?thesis
      by (auto simp: updateTransaction_def Let_def map_upd_triv split: option.splits)
  qed
  have cat: "(\<forall>k v. categories s k = Some v \<longrightarrow> categories (snd (updateTransaction s i b)) k = Some v) \<and>
            (\<forall>k. categories s k = None \<longrightarrow>
                   categories (snd (updateTransaction s i b)) k = None \<or>
                   categories (snd (updateTransaction s i b)) k = Some 0)"
    if same: "(b_tags b = None \<or> b_tags b = Some (tags t)) \<and>
              (b_id_akun b = None \<or> b_id_akun b = Some (id_akun t)) \<and>
              (\<forall>k. \<bar>cat_bal (categories s) k\<bar> + 2 * int (length (tags t)) * \<bar>nominal t\<bar> \<le> 2 ^ 53)"
  proof -
    let ?t' = "apply_body b t"
    from same assms(2,3) have eq: "id_akun ?t' = id_akun t" "tipe ?t' = tipe t"
        "nominal ?t' = nominal t" "tags ?t' = tags t"
      by (auto simp: apply_body_def)
    from same have bnd: "\<forall>k. \<bar>cat_bal (categories s) k\<bar> + 2 * int (length (tags t)) * \<bar>nominal t\<bar> \<le> 2 ^ 53"
      by blast
    show ?thesis
    proof (cases "snd (updateTransaction s i b) = s")
      case True
      then show ?thesis by simp
    next
      case False
      then obtain bal cats1 cats2 where
        c: "updateCategoryBalances t True (categories s) = Some cats1"
           "updateCategoryBalances ?t' False cats1 = Some cats2"
           "categories (snd (updateTransaction s i b)) = cats2"
        using assms(1)
        by (auto simp: updateTransaction_def Let_def split: option.splits)
      from updateCategoryBalances_roundtrip[OF c(1,2) eq bnd] c(3)
      show ?thesis by (auto simp: cat_bal_def split: if_splits)
    qed
  qed
  from acc cat show ?thesis by blast
qed

theorem update_identical_is_neutral_witness:
  "findById 100 (transactions ledger2) = Some makan \<and>
   b_tipe same_kind_amount = Some (tipe makan) \<and> b_nominal same_kind_amount = Some (nominal makan) \<and>
   b_tags same_kind_amount = None \<and> b_id_akun same_kind_amount = None \<and>
   accounts ledger2 (id_akun makan) = Some 700 \<and> \<bar>700\<bar> + \<bar>nominal makan\<bar> \<le> (2 :: int) ^ 53 \<and>
   fst (updateTransaction ledger2 100 same_kind_amount) = Response 200 (TransactionDoc makan) \<and>
   accounts (snd (updateTransaction ledger2 100 same_kind_amount)) = accounts ledger2 \<and>
   categories ledger2 (1, ''food'', ''expense'') = Some 300 \<and>
   categories (snd (updateTransaction ledger2 100 same_kind_amount)) (1, ''food'', ''expense'') = Some 300"
proof -
  have h: "findById 100 (transactions ledger2) = Some makan"
    by (simp add: findById_def ledger2_def makan_def)
  have b: "b_tipe same_kind_amount = Some (tipe makan)" "b_nominal same_kind_amount = Some (nominal makan)"
    "b_tags same_kind_amount = None" "b_id_akun same_kind_amount = None"
    by (simp_all add: same_kind_amount_def no_tx_body_def makan_def)
  have a: "accounts ledger2 (id_akun makan) = Some 700" "\<bar>700\<bar> + \<bar>nominal makan\<bar> \<le> (2 :: int) ^ 53"
    by (simp_all add: ledger2_def makan_def)
  then have ra: "\<forall>bal. accounts ledger2 (id_akun makan) = Some bal \<longrightarrow> \<bar>bal\<bar> + \<bar>nominal makan\<bar> \<le> 2 ^ 53"
    by simp
  have rc: "\<forall>k. \<bar>cat_bal (categories ledger2) k\<bar> + 2 * int (length (tags makan)) * \<bar>nominal makan\<bar> \<le> 2 ^ 53"
    by (simp add: cat_bal_def ledger2_def makan_def)
  have c: "categories ledger2 (1, ''food'', ''expense'') = Some 300" by (simp add: ledger2_def)
  have r: "fst (updateTransaction ledger2 100 same_kind_amount) = Response 200 (TransactionDoc makan)"
    by (simp add: updateTransaction_def findById_def ledger2_def makan_def same_kind_amount_def
        no_tx_body_def updateCategoryBalances_def js_exact Let_def blank_def is_space_def save_category_def
        category_valid_def tipe_enum_def apply_body_def)
  from update_identical_is_neutral[OF h, of same_kind_amount] b c ra rc
  have "accounts (snd (updateTransaction ledger2 100 same_kind_amount)) = accounts ledger2 \<and>
        categories (snd (updateTransaction ledger2 100 same_kind_amount)) (1, ''food'', ''expense'') = Some 300"
    by blast
  with h b a c r show ?thesis by blast
qed

text \<open>
  Outside the safe range the revert and the re-apply do not cancel. On a balance of 1, an
  expense of \<open>2^53\<close> is updated with the same \<open>tipe\<close> and \<open>nominal\<close>: the revert gives
  \<open>1 + 2^53\<close>, rounded to \<open>2^53\<close>, and the re-apply leaves a balance of 0.
\<close>

lemma update_identical_rounds:
  "accounts ledger4 1 = Some 1 \<and>
   fst (updateTransaction ledger4 100
          (no_tx_body \<lparr> b_tipe := Some ''expense'', b_nominal := Some 9007199254740992 \<rparr>)) =
     Response 200 (TransactionDoc cicilan) \<and>
   accounts (snd (updateTransaction ledger4 100
          (no_tx_body \<lparr> b_tipe := Some ''expense'', b_nominal := Some 9007199254740992 \<rparr>))) 1 = Some 0"
proof -
  have "js_sub (js_add 1 9007199254740992) 9007199254740992 = 0"
    by (simp add: js_add_rounds js_sub_exact)
  then show ?thesis
    by (simp add: updateTransaction_def findById_def ledger4_def cicilan_def no_tx_body_def
        updateCategoryBalances_def Let_def apply_body_def apply_effect_def revert_effect_def
        str_or_def num_or_def)
qed

text \<open>
  C7 as stated fails: an update with the same \<open>tipe\<close> and \<open>nominal\<close> that replaces the tag
  \<open>food\<close> by \<open>fun\<close> takes the category \<open>food\<close> from 300 to 0 and creates \<open>fun\<close> with 300.
\<close>

theorem update_identical_retag_counterexample:
  "findById 100 (transactions ledger2) = Some makan \<and>
   b_tipe (same_kind_amount \<lparr> b_tags := Some [''fun''] \<rparr>) = Some (tipe makan) \<and>
   b_nominal (same_kind_amount \<lparr> b_tags := Some [''fun''] \<rparr>) = Some (nominal makan) \<and>
   fst (updateTransaction ledger2 100 (same_kind_amount \<lparr> b_tags := Some [''fun''] \<rparr>)) =
     Response 200 (TransactionDoc (makan \<lparr> tags := [''fun''] \<rparr>)) \<and>
   categories ledger2 (1, ''food'', ''expense'') = Some 300 \<and>
   categories (snd (updateTransaction ledger2 100 (same_kind_amount \<lparr> b_tags := Some [''fun''] \<rparr>)))
     (1, ''food'', ''expense'') = Some 0 \<and>
   categories ledger2 (1, ''fun'', ''expense'') = None \<and>
   categories (snd (updateTransaction ledger2 100 (same_kind_amount \<lparr> b_tags := Some [''fun''] \<rparr>)))
     (1, ''fun'', ''expense'') = Some 300"
  by (simp add: updateTransaction_def findById_def ledger2_def makan_def same_kind_amount_def
        no_tx_body_def updateCategoryBalances_def js_exact Let_def blank_def is_space_def save_category_def
        category_valid_def tipe_enum_def apply_body_def)

section \<open>Category rebuild: idempotence and totals\<close>

lemma put_entry_simp [simp]: "put_entry uid (nm, ty, bal) cats = cats((uid, nm, ty) \<mapsto> bal)"
  by (simp add: put_entry_def)

lemma generate_loop_Some:
  "generate_loop uid ex es (cats, c, n) = Some (cats', c', n') \<Longrightarrow>
     cats' = fold (put_entry uid) es cats \<and> list_all (entry_valid uid) es"
proof (induction es arbitrary: cats c n)
  case Nil
  then show ?case by simp
next
  case (Cons e es)
  obtain nm ty bal where e: "e = (nm, ty, bal)" by (cases e)
  from Cons.prems e have v: "category_valid (uid, nm, ty)"
    by (auto simp: save_category_def split: option.splits if_splits)
  from Cons.prems e v obtain c1 n1 where
    "generate_loop uid ex es (cats((uid, nm, ty) \<mapsto> bal), c1, n1) = Some (cats', c', n')"
    by (auto simp: save_category_def split: option.splits)
  then have "cats' = fold (put_entry uid) es (cats((uid, nm, ty) \<mapsto> bal)) \<and>
             list_all (entry_valid uid) es"
    by (rule Cons.IH)
  with v e show ?case by simp
qed

lemma generate_loop_valid:
  "list_all (entry_valid uid) es \<Longrightarrow>
     \<exists>c' n'. generate_loop uid ex es (cats, c, n) = Some (fold (put_entry uid) es cats, c', n')"
proof (induction es arbitrary: cats c n)
  case Nil
  then show ?case by simp
next
  case (Cons e es)
  obtain nm ty bal where e: "e = (nm, ty, bal)" by (cases e)
  with Cons.prems have v: "category_valid (uid, nm, ty)" "list_all (entry_valid uid) es"
    by simp_all
  have ih: "\<exists>c' n'. generate_loop uid ex es (cats((uid, nm, ty) \<mapsto> bal), c1, n1) =
              Some (fold (put_entry uid) es (cats((uid, nm, ty) \<mapsto> bal)), c', n')" for c1 n1
    using v(2) by (rule Cons.IH)
  show ?case
  proof (cases "ex (uid, nm, ty)")
    case None
    with ih[of "Suc c" n] v(1) e show ?thesis
      by (simp add: save_category_def)
  next
    case (Some old)
    with ih[of c "Suc n"] v(1) e show ?thesis
      by (simp add: save_category_def)
  qed
qed

lemma fold_put_entry:
  "fold (put_entry uid) es cats = cats ++ map_of (rev (map (entry_kv uid) es))"
proof (induction es arbitrary: cats)
  case Nil
  then show ?case by simp
next
  case (Cons e es)
  obtain nm ty bal where e: "e = (nm, ty, bal)" by (cases e)
  have "fold (put_entry uid) es (cats((uid, nm, ty) \<mapsto> bal)) =
        cats((uid, nm, ty) \<mapsto> bal) ++ map_of (rev (map (entry_kv uid) es))"
    by (rule Cons.IH)
  with e show ?case by simp
qed

lemma map_add_same: "m ++ m = m"
  by (rule ext) (simp add: map_add_def split: option.splits)

lemma fold_put_entry_idem:
  "fold (put_entry uid) es (fold (put_entry uid) es cats) = fold (put_entry uid) es cats"
proof -
  let ?M = "map_of (rev (map (entry_kv uid) es))"
  have "(cats ++ ?M) ++ ?M = cats ++ (?M ++ ?M)" by (rule map_add_assoc[symmetric])
  then show ?thesis by (simp only: fold_put_entry map_add_same)
qed

lemma generate_transactions:
  "transactions (snd (generateCategoriesFromTags s u)) = transactions s"
  by (simp add: generateCategoriesFromTags_def split: option.splits prod.splits)

lemma generate_idem: "snd (generateCategoriesFromTags (snd (generateCategoriesFromTags s u)) u) =
    snd (generateCategoriesFromTags s u)"
proof (cases "generate_loop u (categories s) (map snd (tagData_of s u)) (categories s, 0, 0)")
  case None
  then show ?thesis by (simp add: generateCategoriesFromTags_def)
next
  case (Some r)
  obtain cats1 c n where r: "r = (cats1, c, n)" by (cases r)
  let ?es = "map snd (tagData_of s u)"
  let ?s1 = "s \<lparr> categories := cats1 \<rparr>"
  from Some r have s1: "snd (generateCategoriesFromTags s u) = ?s1"
    by (simp add: generateCategoriesFromTags_def)
  from generate_loop_Some[OF Some[unfolded r]]
  have c1: "cats1 = fold (put_entry u) ?es (categories s)" and v: "list_all (entry_valid u) ?es"
    by simp_all
  have td: "tagData_of ?s1 u = tagData_of s u" by (simp add: tagData_of_def)
  from generate_loop_valid[OF v, of cats1 cats1 0 0] obtain c' n' where
    "generate_loop u cats1 ?es (cats1, 0, 0) = Some (fold (put_entry u) ?es cats1, c', n')" by blast
  moreover have "fold (put_entry u) ?es cats1 = cats1"
    unfolding c1 by (rule fold_put_entry_idem)
  ultimately have "snd (generateCategoriesFromTags ?s1 u) = ?s1"
    by (simp add: generateCategoriesFromTags_def td)
  with s1 show ?thesis by simp
qed

lemma tagData_add_bump:
  "tagData_add tag tp n td =
     map (bump (tag_key tag tp) n)
       (if map_of td (tag_key tag tp) = None then td @ [(tag_key tag tp, (tag, tp, 0))] else td)"
  by (simp add: tagData_add_def Let_def bump_def)

lemma bump_simp [simp]:
  "bump key n (k, nm, ty, bal) = (k, nm, ty, (if k = key then bal + n else bal))"
  by (simp add: bump_def)

lemma map_fst_bump: "map fst (map (bump key n) td) = map fst td"
  by (induction td) auto

lemma map_of_bump:
  "map_of (map (bump key n) td) k =
     map_option (\<lambda>(nm, ty, bal). (nm, ty, (if k = key then bal + n else bal))) (map_of td k)"
  by (induction td) auto

lemma td_bal_add:
  "td_bal (tagData_add tag tp n td) key = td_bal td key + (if key = tag_key tag tp then n else 0)"
  by (auto simp: tagData_add_bump td_bal_def map_of_bump map_add_def split: option.splits)

lemma keys_add:
  "map fst (tagData_add tag tp n td) =
     (if tag_key tag tp \<in> set (map fst td) then map fst td else map fst td @ [tag_key tag tp])"
  by (auto simp: tagData_add_bump map_fst_bump map_of_eq_None_iff)

lemma distinct_add: "distinct (map fst td) \<Longrightarrow> distinct (map fst (tagData_add tag tp n td))"
  by (simp add: keys_add)

lemma entries_ok_add:
  "entries_ok S td \<Longrightarrow> (tag, tp) \<in> S \<Longrightarrow> entries_ok S (tagData_add tag tp n td)"
  by (auto simp: entries_ok_def tagData_add_bump split: if_splits)

lemma collect_tags_props:
  assumes "distinct (map fst td)" and "entries_ok S td"
    and "\<forall>tg\<in>set tgs. \<not> blank tg \<longrightarrow> (tg, tipe t) \<in> S"
  shows "distinct (map fst (collect_tags t tgs td)) \<and> entries_ok S (collect_tags t tgs td) \<and>
         td_bal (collect_tags t tgs td) key = td_bal td key + key_sum_tags t tgs key \<and>
         set (map fst (collect_tags t tgs td)) =
           set (map fst td) \<union> {tag_key tg (tipe t) | tg. tg \<in> set tgs \<and> \<not> blank tg}"
  using assms
proof (induction tgs arbitrary: td)
  case Nil
  then show ?case by (simp add: key_sum_tags_def)
next
  case (Cons tg tgs)
  show ?case
  proof (cases "blank tg")
    case True
    with Cons.IH[of td] Cons.prems show ?thesis
      by (auto simp: key_sum_tags_def)
  next
    case False
    let ?td = "tagData_add tg (tipe t) (nominal t) td"
    from False Cons.prems have 1: "distinct (map fst ?td)" "entries_ok S ?td"
      by (simp_all add: distinct_add entries_ok_add)
    from Cons.IH[OF 1] Cons.prems(3) False show ?thesis
      by (auto simp: key_sum_tags_def td_bal_add keys_add)
  qed
qed

lemma pairs_of_Cons:
  "pairs_of (t # txs) = {(tg, tipe t) | tg. tg \<in> set (tags t) \<and> \<not> blank tg} \<union> pairs_of txs"
  by (auto simp: pairs_of_def)

lemma entries_ok_mono: "entries_ok S td \<Longrightarrow> S \<subseteq> S' \<Longrightarrow> entries_ok S' td"
  by (fastforce simp: entries_ok_def)

lemma collect_transactions_props:
  assumes "distinct (map fst td)" and "entries_ok S td" and "pairs_of txs \<subseteq> S"
  shows "distinct (map fst (collect_transactions txs td)) \<and>
         entries_ok S (collect_transactions txs td) \<and>
         td_bal (collect_transactions txs td) key = td_bal td key + key_sum txs key \<and>
         set (map fst (collect_transactions txs td)) =
           set (map fst td) \<union> (\<lambda>(nm, ty). tag_key nm ty) ` pairs_of txs"
  using assms
proof (induction txs arbitrary: td)
  case Nil
  then show ?case by (simp add: key_sum_def pairs_of_def)
next
  case (Cons t txs)
  let ?td = "collect_tags t (tags t) td"
  from Cons.prems(3) have s: "\<forall>tg\<in>set (tags t). \<not> blank tg \<longrightarrow> (tg, tipe t) \<in> S" "pairs_of txs \<subseteq> S"
    by (auto simp: pairs_of_Cons)
  note ct = collect_tags_props[OF Cons.prems(1,2) s(1), of key]
  from ct have 1: "distinct (map fst ?td)" "entries_ok S ?td" by simp_all
  from Cons.IH[OF 1 s(2)] ct show ?case
    by (auto simp: key_sum_def pairs_of_Cons)
qed

lemma tag_key_inj:
  assumes "tipe_enum ty" and "tipe_enum ty'" and "tag_key nm ty = tag_key nm' ty'"
  shows "nm = nm' \<and> ty = ty'"
proof -
  from assms(3) have "rev (tag_key nm ty) = rev (tag_key nm' ty')" by simp
  with assms(1,2) show ?thesis by (auto simp: tipe_enum_def tag_key_def)
qed

lemma key_sum_tags_kind:
  assumes "tipe_enum (tipe t)" and "tipe_enum ty" and "\<not> blank nm"
  shows "key_sum_tags t tgs (tag_key nm ty) =
           (if tipe t = ty then nominal t * int (count_list tgs nm) else 0)"
proof (induction tgs)
  case Nil
  then show ?case by (simp add: key_sum_tags_def)
next
  case (Cons tg tgs)
  have "(\<not> blank tg \<and> tag_key tg (tipe t) = tag_key nm ty) = (tg = nm \<and> tipe t = ty)"
    using tag_key_inj[OF assms(1,2), of tg nm] assms(3) by auto
  with Cons show ?case
    by (simp add: key_sum_tags_def algebra_simps)
qed

lemma key_sum_kind:
  assumes "\<forall>t\<in>set txs. tipe_enum (tipe t)" and "tipe_enum ty" and "\<not> blank nm"
  shows "key_sum txs (tag_key nm ty) = tag_kind_sum txs nm ty"
  using assms(1)
  by (induction txs) (simp_all add: key_sum_def tag_kind_sum_def key_sum_tags_kind[OF _ assms(2,3)])

lemma tagData_of_props:
  "distinct (map fst (tagData_of s u)) \<and>
   entries_ok (pairs_of (filter (\<lambda>t. id_akun t = u) (transactions s))) (tagData_of s u) \<and>
   set (map fst (tagData_of s u)) =
     (\<lambda>(nm, ty). tag_key nm ty) ` pairs_of (filter (\<lambda>t. id_akun t = u) (transactions s))"
  using collect_transactions_props[of "[]" "pairs_of (filter (\<lambda>t. id_akun t = u) (transactions s))"
          "filter (\<lambda>t. id_akun t = u) (transactions s)"]
  by (simp add: tagData_of_def entries_ok_def)

lemma tagData_of_bal:
  "td_bal (tagData_of s u) key = key_sum (filter (\<lambda>t. id_akun t = u) (transactions s)) key"
  using collect_transactions_props[of "[]" "pairs_of (filter (\<lambda>t. id_akun t = u) (transactions s))"
          "filter (\<lambda>t. id_akun t = u) (transactions s)" key]
  by (simp add: tagData_of_def entries_ok_def td_bal_def)

lemma entries_lookup:
  assumes d: "distinct (map fst td)" and e: "entries_ok S td"
    and k: "set (map fst td) = (\<lambda>(nm, ty). tag_key nm ty) ` S"
    and v: "\<forall>(nm, ty)\<in>S. tipe_enum ty"
  shows "map_of (rev (map (entry_kv u) (map snd td))) (u', nm, ty) =
           (if u' = u \<and> (nm, ty) \<in> S then Some (td_bal td (tag_key nm ty)) else None)"
proof -
  let ?kvs = "map (entry_kv u) (map snd td)"
  have fst_eq: "map fst td = map (\<lambda>(u', nm, ty). tag_key nm ty) (map fst ?kvs)"
    using e by (induction td) (auto simp: entries_ok_def)
  from d[unfolded fst_eq] have dk: "distinct (map fst ?kvs)"
    by (rule distinct_map[THEN iffD1, THEN conjunct1])
  then have dr: "distinct (map fst (rev ?kvs))" by (simp add: rev_map[symmetric])
  have mem: "((u', nm, ty), b) \<in> set ?kvs \<longleftrightarrow> u' = u \<and> (\<exists>k. (k, nm, ty, b) \<in> set td)" for b
    by (force simp: image_iff)
  show ?thesis
  proof (cases "u' = u \<and> (nm, ty) \<in> S")
    case True
    with k have "tag_key nm ty \<in> set (map fst td)" by force
    then obtain nm' ty' b where in_td: "(tag_key nm ty, nm', ty', b) \<in> set td" by force
    with e have "tag_key nm ty = tag_key nm' ty'" "(nm', ty') \<in> S"
      by (auto simp: entries_ok_def)
    with v True have "nm' = nm \<and> ty' = ty"
      using tag_key_inj[of ty ty' nm nm'] by auto
    with in_td have in_td': "(tag_key nm ty, nm, ty, b) \<in> set td" by simp
    with d have "map_of td (tag_key nm ty) = Some (nm, ty, b)" by simp
    then have "td_bal td (tag_key nm ty) = b" by (simp add: td_bal_def)
    moreover from in_td' True have "((u', nm, ty), b) \<in> set (rev ?kvs)" using mem by auto
    with dr have "map_of (rev ?kvs) (u', nm, ty) = Some b" by (rule map_of_is_SomeI)
    ultimately show ?thesis using True by simp
  next
    case False
    have "(u', nm, ty) \<notin> fst ` set ?kvs"
    proof
      assume "(u', nm, ty) \<in> fst ` set ?kvs"
      then obtain b where "((u', nm, ty), b) \<in> set ?kvs" by force
      with mem obtain k where "u' = u" "(k, nm, ty, b) \<in> set td" by blast
      with e False show False by (auto simp: entries_ok_def)
    qed
    then have "map_of (rev ?kvs) (u', nm, ty) = None"
      by (simp add: map_of_eq_None_iff)
    with False show ?thesis by simp
  qed
qed

lemma pairs_of_iff:
  "(nm, ty) \<in> pairs_of (filter (\<lambda>t. id_akun t = u) txs) \<longleftrightarrow>
     \<not> blank nm \<and> (\<exists>t\<in>set txs. id_akun t = u \<and> tipe t = ty \<and> nm \<in> set (tags t))"
  by (auto simp: pairs_of_def)

text \<open>
  C8 (rebuild idempotence). Running generateCategoriesFromTags a second time on the store
  left by a first run leaves that store, and so every category balance, as it is. When the
  account's transactions have a valid \<open>tipe\<close>, a run is answered with status 200 and sets
  the balance of every category named by a non-blank tag of one of the account's transactions
  to the sum of \<open>nominal\<close> over the account's transactions of that kind carrying the tag,
  whatever the balance was; every other category keeps its balance.
\<close>

theorem rebuild_idempotent:
  "snd (generateCategoriesFromTags (snd (generateCategoriesFromTags s u)) u) =
     snd (generateCategoriesFromTags s u) \<and>
   ((\<forall>t\<in>set (transactions s). id_akun t = u \<longrightarrow> tipe_enum (tipe t)) \<longrightarrow>
      (\<exists>c n. fst (generateCategoriesFromTags s u) = Response 200 (CategoriesReport c n)) \<and>
      (\<forall>u' nm ty. categories (snd (generateCategoriesFromTags s u)) (u', nm, ty) =
          (if u' = u \<and> \<not> blank nm \<and>
              (\<exists>t\<in>set (transactions s). id_akun t = u \<and> tipe t = ty \<and> nm \<in> set (tags t))
           then Some (tag_kind_sum (filter (\<lambda>t. id_akun t = u) (transactions s)) nm ty)
           else categories s (u', nm, ty))))"
proof (intro conjI impI)
  show "snd (generateCategoriesFromTags (snd (generateCategoriesFromTags s u)) u) =
     snd (generateCategoriesFromTags s u)"
    by (rule generate_idem)
next
  assume H: "\<forall>t\<in>set (transactions s). id_akun t = u \<longrightarrow> tipe_enum (tipe t)"
  let ?txs = "filter (\<lambda>t. id_akun t = u) (transactions s)"
  let ?td = "tagData_of s u"
  let ?S = "pairs_of ?txs"
  from H have Hs: "\<forall>(nm, ty)\<in>?S. tipe_enum ty" by (auto simp: pairs_of_def)
  have Ht: "\<forall>t\<in>set ?txs. tipe_enum (tipe t)" using H by simp
  note P = tagData_of_props[of s u]
  have V: "list_all (entry_valid u) (map snd ?td)"
  proof -
    have "entry_valid u (snd x)" if "x \<in> set ?td" for x
    proof -
      obtain k nm ty b where x: "x = (k, nm, ty, b)" by (cases x)
      with that P have "(nm, ty) \<in> ?S" by (auto simp: entries_ok_def)
      with H x show ?thesis
        by (auto simp: pairs_of_def category_valid_def dest: blank_nonempty)
    qed
    then show ?thesis by (simp add: list_all_iff)
  qed
  from generate_loop_valid[OF V, of "categories s" "categories s" 0 0] obtain c n where
    L: "generate_loop u (categories s) (map snd ?td) (categories s, 0, 0) =
          Some (fold (put_entry u) (map snd ?td) (categories s), c, n)" by blast
  then have R: "generateCategoriesFromTags s u =
      (Response 200 (CategoriesReport c n),
       s \<lparr> categories := fold (put_entry u) (map snd ?td) (categories s) \<rparr>)"
    by (simp add: generateCategoriesFromTags_def)
  then show "\<exists>c n. fst (generateCategoriesFromTags s u) = Response 200 (CategoriesReport c n)"
    by simp
  show "\<forall>u' nm ty. categories (snd (generateCategoriesFromTags s u)) (u', nm, ty) =
          (if u' = u \<and> \<not> blank nm \<and>
              (\<exists>t\<in>set (transactions s). id_akun t = u \<and> tipe t = ty \<and> nm \<in> set (tags t))
           then Some (tag_kind_sum ?txs nm ty)
           else categories s (u', nm, ty))"
  proof (intro allI)
    fix u' nm ty
    from P have lk: "map_of (rev (map (entry_kv u) (map snd ?td))) (u', nm, ty) =
        (if u' = u \<and> (nm, ty) \<in> ?S then Some (td_bal ?td (tag_key nm ty)) else None)"
      using entries_lookup[of ?td ?S u u' nm ty] Hs by blast
    have bal: "td_bal ?td (tag_key nm ty) = tag_kind_sum ?txs nm ty" if "(nm, ty) \<in> ?S"
    proof -
      from that Hs have "tipe_enum ty" "\<not> blank nm" by (auto simp: pairs_of_def)
      from key_sum_kind[OF Ht this] tagData_of_bal[of s u "tag_key nm ty"] show ?thesis by simp
    qed
    show "categories (snd (generateCategoriesFromTags s u)) (u', nm, ty) =
          (if u' = u \<and> \<not> blank nm \<and>
              (\<exists>t\<in>set (transactions s). id_akun t = u \<and> tipe t = ty \<and> nm \<in> set (tags t))
           then Some (tag_kind_sum ?txs nm ty)
           else categories s (u', nm, ty))"
      using lk bal pairs_of_iff[of nm ty u "transactions s"]
      by (auto simp: R fold_put_entry map_add_def)
  qed
qed

theorem rebuild_idempotent_witness:
  "snd (generateCategoriesFromTags (snd (generateCategoriesFromTags ledger3 1)) 1) =
     snd (generateCategoriesFromTags ledger3 1) \<and>
   list_all (\<lambda>t. tipe_enum (tipe t)) (transactions ledger3) \<and>
   (\<exists>c n. fst (generateCategoriesFromTags ledger3 1) = Response 200 (CategoriesReport c n)) \<and>
   categories ledger3 (1, ''food'', ''expense'') = Some 999 \<and>
   categories (snd (generateCategoriesFromTags ledger3 1)) (1, ''food'', ''expense'') = Some 350 \<and>
   categories ledger3 (1, ''snack'', ''expense'') = None \<and>
   categories (snd (generateCategoriesFromTags ledger3 1)) (1, ''snack'', ''expense'') = Some 50"
proof -
  have txs: "transactions ledger3 = [makan, jajan, gaji]" by (simp add: ledger3_def)
  have v: "list_all (\<lambda>t. tipe_enum (tipe t)) (transactions ledger3)"
    by (simp add: txs makan_def jajan_def gaji_def tipe_enum_def)
  then have H: "\<forall>t\<in>set (transactions ledger3). id_akun t = 1 \<longrightarrow> tipe_enum (tipe t)"
    by (simp add: list_all_iff)
  have b: "\<not> blank ''food''" "\<not> blank ''snack''" by (simp_all add: blank_def is_space_def)
  have e: "\<exists>t\<in>set (transactions ledger3). id_akun t = 1 \<and> tipe t = ''expense'' \<and> ''food'' \<in> set (tags t)"
          "\<exists>t\<in>set (transactions ledger3). id_akun t = 1 \<and> tipe t = ''expense'' \<and> ''snack'' \<in> set (tags t)"
    by (simp_all add: txs makan_def jajan_def gaji_def)
  have sums: "tag_kind_sum (filter (\<lambda>t. id_akun t = 1) (transactions ledger3)) ''food'' ''expense'' = 350"
             "tag_kind_sum (filter (\<lambda>t. id_akun t = 1) (transactions ledger3)) ''snack'' ''expense'' = 50"
    by (simp_all add: txs makan_def jajan_def gaji_def tag_kind_sum_def)
  have old: "categories ledger3 (1, ''food'', ''expense'') = Some 999"
            "categories ledger3 (1, ''snack'', ''expense'') = None"
    by (simp_all add: ledger3_def)
  note R = rebuild_idempotent[of ledger3 1]
  from R have 1: "snd (generateCategoriesFromTags (snd (generateCategoriesFromTags ledger3 1)) 1) =
     snd (generateCategoriesFromTags ledger3 1)" by blast
  from R H have 2: "\<exists>c n. fst (generateCategoriesFromTags ledger3 1) = Response 200 (CategoriesReport c n)"
    by blast
  from R H have 3: "categories (snd (generateCategoriesFromTags ledger3 1)) (u', nm, ty) =
          (if u' = 1 \<and> \<not> blank nm \<and>
              (\<exists>t\<in>set (transactions ledger3). id_akun t = 1 \<and> tipe t = ty \<and> nm \<in> set (tags t))
           then Some (tag_kind_sum (filter (\<lambda>t. id_akun t = 1) (transactions ledger3)) nm ty)
           else categories ledger3 (u', nm, ty))" for u' nm ty
    by blast
  from 3[of 1 "''food''" "''expense''"] b e sums
  have 4: "categories (snd (generateCategoriesFromTags ledger3 1)) (1, ''food'', ''expense'') = Some 350"
    by simp
  from 3[of 1 "''snack''" "''expense''"] b e sums
  have 5: "categories (snd (generateCategoriesFromTags ledger3 1)) (1, ''snack'', ''expense'') = Some 50"
    by simp
  from 1 v 2 old 4 5 show ?thesis by blast
qed

section \<open>Balance and category totals at the failing inputs\<close>

text \<open>
  C1 (balance conservation) at the input where the code departs from it. On an account with
  balance 0 and no transactions, an income of 1000 is created (balance 1000, signed sum 1000)
  and then updated with \<open>nominal = 0\<close>: the update is answered with status 200, the stored
  transaction has \<open>nominal = 0\<close>, and the balance written back is still 1000 while the signed
  sum of the stored transactions is 0.
\<close>

theorem zero_update_breaks_balance:
  "accounts ledger0 1 = Some 0 \<and> ledger_sum ledger0 1 = 0 \<and>
   accounts after_salary 1 = Some 1000 \<and> ledger_sum after_salary 1 = 1000 \<and>
   fst (updateTransaction after_salary 100 (no_tx_body \<lparr> b_nominal := Some 0 \<rparr>)) =
     Response 200 (TransactionDoc \<lparr> tx_id = 100, id_akun = 1, tipe = ''income'', deskripsi = ''catatan'',
                                     nominal = 0, category = ''lainnya'', tags = [] \<rparr>) \<and>
   transactions after_zero_update =
     [\<lparr> tx_id = 100, id_akun = 1, tipe = ''income'', deskripsi = ''catatan'',
        nominal = 0, category = ''lainnya'', tags = [] \<rparr>] \<and>
   accounts after_zero_update 1 = Some 1000 \<and> ledger_sum after_zero_update 1 = 0"
  by (simp add: after_zero_update_def after_salary_def createTransaction_def updateTransaction_def
        ledger0_def tx_request_def no_tx_body_def new_transaction_def tipe_enum_def str_or_def num_or_def
        updateCategoryBalances_def apply_effect_def revert_effect_def js_exact findById_def apply_body_def
        findByIdAndUpdate_def ledger_sum_def signed_nominal_def Let_def)

lemma title_tag_tabungan: "title_tag ''Tabungan'' = ''tabungan''"
  by code_simp

text \<open>
  C2 (category totals match tags) at the input where the code departs from it. After an
  expense of 10 tagged \<open>savings\<close> the category \<open>(savings, expense)\<close> holds 10, the sum over
  the tagged transactions. An allocation of 5 with a transaction record then stores an expense
  of 5 tagged \<open>goal\<close>, \<open>savings\<close> and the goal's name: the category \<open>savings\<close> still
  holds 10 while the tagged transactions sum to 15, and no category \<open>goal\<close> exists.
\<close>

theorem allocation_skips_categories:
  "categories after_saving (1, ''savings'', ''expense'') = Some 10 \<and>
   tag_total after_saving (1, ''savings'', ''expense'') = 10 \<and>
   fst (allocateFunds after_saving 8 (funds 5 True)) =
     Response 200 (GoalDoc (Some (tabungan \<lparr> saved_amount := 5 \<rparr>))) \<and>
   transactions after_allocation =
     [\<lparr> tx_id = 100, id_akun = 1, tipe = ''expense'', deskripsi = ''catatan'',
        nominal = 10, category = ''lainnya'', tags = [''savings''] \<rparr>,
      \<lparr> tx_id = 101, id_akun = 1, tipe = ''expense'', deskripsi = ''Goal allocation: Tabungan'',
        nominal = 5, category = ''savings'', tags = [''goal'', ''savings'', ''tabungan''] \<rparr>] \<and>
   accounts after_allocation 1 = Some (- 15) \<and>
   categories after_allocation (1, ''savings'', ''expense'') = Some 10 \<and>
   tag_total after_allocation (1, ''savings'', ''expense'') = 15 \<and>
   categories after_allocation (1, ''goal'', ''expense'') = None"
  by (simp add: after_allocation_def after_saving_def createTransaction_def allocateFunds_def
        ledger0_def tx_request_def funds_def tabungan_def new_transaction_def tipe_enum_def str_or_def
        updateCategoryBalances_def apply_effect_def js_exact blank_def is_space_def save_category_def
        category_valid_def save_goal_def goal_valid_def status_enum_def pre_save_def
        save_transaction_def transaction_valid_def note_suffix_def title_tag_tabungan
        tag_total_def Let_def)

section \<open>Balance conservation apart from the fallback\<close>

lemma ledger_sum_lsum: "ledger_sum s a = lsum (transactions s) a"
  by (simp add: ledger_sum_def lsum_def)

lemma lsum_append: "lsum (txs @ [t]) a = lsum txs a + (if id_akun t = a then signed_nominal t else 0)"
  by (simp add: lsum_def)

lemma apply_effect_signed:
  "\<bar>bal\<bar> + \<bar>nominal t\<bar> \<le> 2 ^ 53 \<Longrightarrow> apply_effect (tipe t) (nominal t) bal = bal + signed_nominal t"
proof -
  assume "\<bar>bal\<bar> + \<bar>nominal t\<bar> \<le> 2 ^ 53"
  then have "\<bar>bal - nominal t\<bar> \<le> 2 ^ 53" "\<bar>bal + nominal t\<bar> \<le> 2 ^ 53" by linarith+
  then show ?thesis by (simp add: apply_effect_def signed_nominal_def js_exact)
qed

lemma revert_effect_signed:
  "\<bar>bal\<bar> + \<bar>nominal t\<bar> \<le> 2 ^ 53 \<Longrightarrow> revert_effect (tipe t) (nominal t) bal = bal - signed_nominal t"
proof -
  assume "\<bar>bal\<bar> + \<bar>nominal t\<bar> \<le> 2 ^ 53"
  then have "\<bar>bal - nominal t\<bar> \<le> 2 ^ 53" "\<bar>bal + nominal t\<bar> \<le> 2 ^ 53" by linarith+
  then show ?thesis by (simp add: revert_effect_def signed_nominal_def js_exact)
qed

lemma signed_nominal_abs: "\<bar>signed_nominal t\<bar> \<le> \<bar>nominal t\<bar>"
  by (simp add: signed_nominal_def)

lemma in_range_acc: "in_range s \<Longrightarrow> accounts s a = Some bal \<Longrightarrow> \<bar>bal\<bar> \<le> 2 ^ 51"
  by (simp add: in_range_def)

lemma in_range_cat: "in_range s \<Longrightarrow> \<bar>cat_bal (categories s) k\<bar> \<le> 2 ^ 52"
proof (cases "categories s k")
  case None
  then show ?thesis by (simp add: cat_bal_def)
next
  case (Some bal)
  assume "in_range s"
  then have "\<forall>k bal. categories s k = Some bal \<longrightarrow> \<bar>bal\<bar> \<le> 2 ^ 52"
    unfolding in_range_def by blast
  with Some have "\<bar>bal\<bar> \<le> 2 ^ 52" by blast
  with Some show ?thesis by (simp add: cat_bal_def)
qed

lemma in_range_tx:
  assumes "in_range s" and "t \<in> set (transactions s)"
  shows "\<bar>nominal t\<bar> \<le> 2 ^ 51" and "int (length (tags t)) * \<bar>nominal t\<bar> \<le> 2 ^ 51"
proof -
  from assms have "(int (length (tags t)) + 1) * \<bar>nominal t\<bar> \<le> 2 ^ 51"
    by (simp add: in_range_def)
  then have a: "int (length (tags t)) * \<bar>nominal t\<bar> + \<bar>nominal t\<bar> \<le> 2 ^ 51"
    by (simp add: algebra_simps)
  have "0 \<le> int (length (tags t)) * \<bar>nominal t\<bar>" by simp
  with a show "\<bar>nominal t\<bar> \<le> 2 ^ 51" and "int (length (tags t)) * \<bar>nominal t\<bar> \<le> 2 ^ 51"
    by linarith+
qed

lemma run_in_range_head: "run_in_range s rs \<Longrightarrow> in_range s"
  by (cases rs) simp_all

lemma findById_updated:
  "findById i txs = Some t \<Longrightarrow> apply_body b t \<in> set (findByIdAndUpdate i b txs)"
  by (induction txs) (auto simp: findById_def findByIdAndUpdate_def split: if_splits)

lemma findById_absent: "i \<notin> tx_id ` set txs \<Longrightarrow> findById i txs = None"
  by (induction txs) (auto simp: findById_def)

lemma delete_absent: "i \<notin> tx_id ` set txs \<Longrightarrow> findByIdAndDelete i txs = txs"
  by (induction txs) (auto simp: findByIdAndDelete_def)

lemma update_absent: "i \<notin> tx_id ` set txs \<Longrightarrow> findByIdAndUpdate i b txs = txs"
  by (induction txs) (auto simp: findByIdAndUpdate_def)

lemma findById_mem: "findById i txs = Some t \<Longrightarrow> t \<in> set txs \<and> tx_id t = i"
  by (induction txs) (auto simp: findById_def split: if_splits)

lemma lsum_delete:
  "distinct (map tx_id txs) \<Longrightarrow> findById i txs = Some t \<Longrightarrow>
     lsum (findByIdAndDelete i txs) a = lsum txs a - (if id_akun t = a then signed_nominal t else 0)"
proof (induction txs)
  case Nil
  then show ?case by (simp add: findById_def)
next
  case (Cons x txs)
  show ?case
  proof (cases "tx_id x = i")
    case True
    with Cons.prems have "x = t" "i \<notin> tx_id ` set txs" by (auto simp: findById_def)
    then show ?thesis using True delete_absent[of i txs]
      by (auto simp: lsum_def findByIdAndDelete_def)
  next
    case False
    with Cons.prems have "findById i txs = Some t" "distinct (map tx_id txs)"
      by (auto simp: findById_def)
    from Cons.IH[OF this(2,1)] False show ?thesis
      by (auto simp: lsum_def findByIdAndDelete_def)
  qed
qed

lemma lsum_update:
  "distinct (map tx_id txs) \<Longrightarrow> findById i txs = Some t \<Longrightarrow> id_akun (apply_body b t) = id_akun t \<Longrightarrow>
     lsum (findByIdAndUpdate i b txs) a =
       lsum txs a - (if id_akun t = a then signed_nominal t else 0)
                  + (if id_akun t = a then signed_nominal (apply_body b t) else 0)"
proof (induction txs)
  case Nil
  then show ?case by (simp add: findById_def)
next
  case (Cons x txs)
  show ?case
  proof (cases "tx_id x = i")
    case True
    with Cons.prems have "x = t" "i \<notin> tx_id ` set txs" by (auto simp: findById_def)
    then show ?thesis using True update_absent[of i txs b] Cons.prems(3)
      by (auto simp: lsum_def findByIdAndUpdate_def)
  next
    case False
    with Cons.prems have "findById i txs = Some t" "distinct (map tx_id txs)"
      by (auto simp: findById_def)
    from Cons.IH[OF this(2,1) Cons.prems(3)] False show ?thesis
      by (auto simp: lsum_def findByIdAndUpdate_def)
  qed
qed

lemma createTransaction_balanced:
  assumes "balanced s" and "in_range s" and "in_range (snd (createTransaction s b))"
  shows "balanced (snd (createTransaction s b))"
proof (cases "snd (createTransaction s b) = s")
  case True
  with assms(1) show ?thesis by simp
next
  case False
  then obtain t bal where
    c: "accounts s (id_akun t) = Some bal"
       "accounts (snd (createTransaction s b)) =
          (accounts s)(id_akun t \<mapsto> apply_effect (tipe t) (nominal t) bal)"
       "transactions (snd (createTransaction s b)) = transactions s @ [t]"
    by (auto simp: createTransaction_def Let_def split: option.splits)
  from c(3) have "t \<in> set (transactions (snd (createTransaction s b)))" by simp
  from in_range_tx(1)[OF assms(3) this] in_range_acc[OF assms(2) c(1)]
  have "\<bar>bal\<bar> + \<bar>nominal t\<bar> \<le> 2 ^ 53" by simp
  then have e: "apply_effect (tipe t) (nominal t) bal = bal + signed_nominal t"
    by (rule apply_effect_signed)
  from assms(1) c(1) show ?thesis
    by (auto simp: balanced_def ledger_sum_lsum c(2,3) e lsum_append)
qed

lemma deleteTransaction_balanced:
  assumes "balanced s" and "ids_fresh s" and "in_range s"
  shows "balanced (snd (deleteTransaction s i))"
proof (cases "snd (deleteTransaction s i) = s")
  case True
  with assms(1) show ?thesis by simp
next
  case False
  then obtain t bal where
    c: "findById i (transactions s) = Some t"
       "accounts s (id_akun t) = Some bal"
       "accounts (snd (deleteTransaction s i)) =
          (accounts s)(id_akun t \<mapsto> revert_effect (tipe t) (nominal t) bal)"
       "transactions (snd (deleteTransaction s i)) = findByIdAndDelete i (transactions s)"
    by (auto simp: deleteTransaction_def Let_def split: option.splits)
  from assms(2) have d: "distinct (map tx_id (transactions s))" by (simp add: ids_fresh_def)
  from findById_mem[OF c(1)] have "t \<in> set (transactions s)" by simp
  from in_range_tx(1)[OF assms(3) this] in_range_acc[OF assms(3) c(2)]
  have "\<bar>bal\<bar> + \<bar>nominal t\<bar> \<le> 2 ^ 53" by simp
  then have e: "revert_effect (tipe t) (nominal t) bal = bal - signed_nominal t"
    by (rule revert_effect_signed)
  from assms(1) c(2) show ?thesis
    by (auto simp: balanced_def ledger_sum_lsum c(3,4) e lsum_delete[OF d c(1)])
qed

lemma updateTransaction_balanced:
  assumes "balanced s" and "ids_fresh s"
    and "b_nominal b \<noteq> Some 0" and "b_tipe b \<noteq> Some []" and "b_id_akun b = None"
    and "in_range s" and "in_range (snd (updateTransaction s i b))"
  shows "balanced (snd (updateTransaction s i b))"
proof (cases "snd (updateTransaction s i b) = s")
  case True
  with assms(1) show ?thesis by simp
next
  case False
  then obtain t bal where
    c: "findById i (transactions s) = Some t"
       "accounts s (id_akun t) = Some bal"
       "accounts (snd (updateTransaction s i b)) =
          (accounts s)(id_akun t \<mapsto>
             apply_effect (str_or (b_tipe b) (tipe t)) (num_or (b_nominal b) (nominal t))
               (revert_effect (tipe t) (nominal t) bal))"
       "transactions (snd (updateTransaction s i b)) = findByIdAndUpdate i b (transactions s)"
    by (auto simp: updateTransaction_def Let_def split: option.splits)
  let ?t' = "apply_body b t"
  from assms(3,4) have f: "str_or (b_tipe b) (tipe t) = tipe ?t'" "num_or (b_nominal b) (nominal t) = nominal ?t'"
    by (auto simp: str_or_def num_or_def apply_body_def split: option.splits)
  from assms(5) have a: "id_akun ?t' = id_akun t" by (simp add: apply_body_def)
  from assms(2) have d: "distinct (map tx_id (transactions s))" by (simp add: ids_fresh_def)
  note u = lsum_update[OF d c(1) a]
  from findById_mem[OF c(1)] have "t \<in> set (transactions s)" by simp
  note n = in_range_tx(1)[OF assms(6) this]
  from findById_updated[OF c(1), of b] c(4)
  have "?t' \<in> set (transactions (snd (updateTransaction s i b)))" by simp
  note n' = in_range_tx(1)[OF assms(7) this]
  note bb = in_range_acc[OF assms(6) c(2)]
  from n bb have "\<bar>bal\<bar> + \<bar>nominal t\<bar> \<le> 2 ^ 53" by simp
  then have e1: "revert_effect (tipe t) (nominal t) bal = bal - signed_nominal t"
    by (rule revert_effect_signed)
  from n bb signed_nominal_abs[of t] have "\<bar>bal - signed_nominal t\<bar> \<le> 2 ^ 52" by simp
  with n' have "\<bar>bal - signed_nominal t\<bar> + \<bar>nominal ?t'\<bar> \<le> 2 ^ 53" by simp
  then have e2: "apply_effect (tipe ?t') (nominal ?t') (bal - signed_nominal t) =
                 bal - signed_nominal t + signed_nominal ?t'"
    by (rule apply_effect_signed)
  from assms(1) c(2) show ?thesis
    by (auto simp: balanced_def ledger_sum_lsum c(3,4) f e1 e2 u)
qed

lemma allocateFunds_balanced: "balanced s \<Longrightarrow> balanced (snd (allocateFunds s i b))"
  by (auto simp: balanced_def allocateFunds_def Let_def ledger_sum_lsum lsum_append
        save_transaction_def signed_nominal_def save_goal_def pre_save_def split: option.splits if_splits)

lemma withdrawFunds_balanced: "balanced s \<Longrightarrow> balanced (snd (withdrawFunds s i b))"
  by (auto simp: balanced_def withdrawFunds_def Let_def ledger_sum_lsum lsum_append
        save_transaction_def signed_nominal_def save_goal_def pre_save_def split: option.splits if_splits)

lemma ids_fresh_step:
  assumes "ids_fresh s"
    and "(transactions s' = transactions s \<and> next_id s' = next_id s) \<or>
         (\<exists>t. tx_id t = next_id s \<and> transactions s' = transactions s @ [t] \<and>
              next_id s' = Suc (next_id s))"
  shows "ids_fresh s'"
  using assms(2)
proof
  assume "transactions s' = transactions s \<and> next_id s' = next_id s"
  with assms(1) show ?thesis by (simp add: ids_fresh_def)
next
  assume "\<exists>t. tx_id t = next_id s \<and> transactions s' = transactions s @ [t] \<and>
              next_id s' = Suc (next_id s)"
  then obtain t where t: "tx_id t = next_id s" "transactions s' = transactions s @ [t]"
    "next_id s' = Suc (next_id s)" by blast
  from assms(1) have "next_id s \<notin> tx_id ` set (transactions s)" by (auto simp: ids_fresh_def)
  with assms(1) t show ?thesis by (auto simp: ids_fresh_def less_Suc_eq)
qed

lemma createTransaction_step:
  "(transactions (snd (createTransaction s b)) = transactions s \<and>
    next_id (snd (createTransaction s b)) = next_id s) \<or>
   (\<exists>t. tx_id t = next_id s \<and> transactions (snd (createTransaction s b)) = transactions s @ [t] \<and>
        next_id (snd (createTransaction s b)) = Suc (next_id s))"
  by (auto simp: createTransaction_def Let_def new_transaction_def split: option.splits if_splits)

lemma allocateFunds_step:
  "(transactions (snd (allocateFunds s i b)) = transactions s \<and>
    next_id (snd (allocateFunds s i b)) = next_id s) \<or>
   (\<exists>t. tx_id t = next_id s \<and> transactions (snd (allocateFunds s i b)) = transactions s @ [t] \<and>
        next_id (snd (allocateFunds s i b)) = Suc (next_id s))"
  by (auto simp: allocateFunds_def Let_def save_transaction_def split: option.splits if_splits)

lemma withdrawFunds_step:
  "(transactions (snd (withdrawFunds s i b)) = transactions s \<and>
    next_id (snd (withdrawFunds s i b)) = next_id s) \<or>
   (\<exists>t. tx_id t = next_id s \<and> transactions (snd (withdrawFunds s i b)) = transactions s @ [t] \<and>
        next_id (snd (withdrawFunds s i b)) = Suc (next_id s))"
  by (auto simp: withdrawFunds_def Let_def save_transaction_def split: option.splits if_splits)

lemma createTransaction_fresh: "ids_fresh s \<Longrightarrow> ids_fresh (snd (createTransaction s b))"
  by (rule ids_fresh_step[OF _ createTransaction_step])

lemma allocateFunds_fresh: "ids_fresh s \<Longrightarrow> ids_fresh (snd (allocateFunds s i b))"
  by (rule ids_fresh_step[OF _ allocateFunds_step])

lemma withdrawFunds_fresh: "ids_fresh s \<Longrightarrow> ids_fresh (snd (withdrawFunds s i b))"
  by (rule ids_fresh_step[OF _ withdrawFunds_step])

lemma map_tx_id_update: "map tx_id (findByIdAndUpdate i b txs) = map tx_id txs"
  by (induction txs) (auto simp: findByIdAndUpdate_def apply_body_id)

lemma updateTransaction_fresh: "ids_fresh s \<Longrightarrow> ids_fresh (snd (updateTransaction s i b))"
proof -
  assume f: "ids_fresh s"
  have "set (map tx_id (findByIdAndUpdate i b (transactions s))) = set (map tx_id (transactions s))"
    by (simp only: map_tx_id_update)
  then have "\<forall>t\<in>set (findByIdAndUpdate i b (transactions s)). tx_id t < next_id s"
    using f by (force simp: ids_fresh_def)
  with f have "ids_fresh (s \<lparr> accounts := acc, transactions := findByIdAndUpdate i b (transactions s),
                             categories := cats \<rparr>)" for acc cats
    by (simp add: ids_fresh_def map_tx_id_update)
  with f show ?thesis
    by (simp add: updateTransaction_def Let_def split: option.splits)
qed

lemma deleteTransaction_fresh: "ids_fresh s \<Longrightarrow> ids_fresh (snd (deleteTransaction s i))"
  by (auto simp: ids_fresh_def deleteTransaction_def Let_def findByIdAndDelete_def distinct_map_filter
        split: option.splits)

lemma createGoal_fresh: "ids_fresh s \<Longrightarrow> ids_fresh (snd (createGoal s u b))"
  by (auto simp: ids_fresh_def createGoal_def less_Suc_eq split: option.splits)

lemma createGoal_ledger:
  "transactions (snd (createGoal s u gb)) = transactions s"
  "accounts (snd (createGoal s u gb)) = accounts s"
  by (simp_all add: createGoal_def split: option.splits)

lemma updateGoal_ledger:
  "transactions (snd (updateGoal s i gb)) = transactions s"
  "accounts (snd (updateGoal s i gb)) = accounts s"
  "next_id (snd (updateGoal s i gb)) = next_id s"
  by (simp_all add: updateGoal_def Let_def split: option.splits)

lemma deleteGoal_ledger:
  "transactions (snd (deleteGoal s i)) = transactions s"
  "accounts (snd (deleteGoal s i)) = accounts s"
  "next_id (snd (deleteGoal s i)) = next_id s"
  by (simp_all add: deleteGoal_def split: option.splits)

lemma generate_ledger:
  "transactions (snd (generateCategoriesFromTags s u)) = transactions s"
  "accounts (snd (generateCategoriesFromTags s u)) = accounts s"
  "next_id (snd (generateCategoriesFromTags s u)) = next_id s"
  by (simp_all add: generateCategoriesFromTags_def split: option.splits prod.splits)

lemma balanced_same:
  "transactions s' = transactions s \<Longrightarrow> accounts s' = accounts s \<Longrightarrow> balanced s \<Longrightarrow> balanced s'"
  by (simp add: balanced_def ledger_sum_def)

lemma ids_fresh_same:
  "transactions s' = transactions s \<Longrightarrow> next_id s' = next_id s \<Longrightarrow> ids_fresh s \<Longrightarrow> ids_fresh s'"
  by (simp add: ids_fresh_def)

lemma handle_fresh: "ids_fresh s \<Longrightarrow> ids_fresh (snd (handle s r))"
proof (cases r)
  case (CreateTransaction b)
  then show "ids_fresh s \<Longrightarrow> ?thesis" by (simp add: createTransaction_fresh)
next
  case (UpdateTransaction i b)
  then show "ids_fresh s \<Longrightarrow> ?thesis" by (simp add: updateTransaction_fresh)
next
  case (DeleteTransaction i)
  then show "ids_fresh s \<Longrightarrow> ?thesis" by (simp add: deleteTransaction_fresh)
next
  case (GenerateCategoriesFromTags u)
  then show "ids_fresh s \<Longrightarrow> ?thesis" by (simp add: ids_fresh_same[OF generate_ledger(1,3)])
next
  case (CreateGoal u b)
  then show "ids_fresh s \<Longrightarrow> ?thesis" by (simp add: createGoal_fresh)
next
  case (UpdateGoal i b)
  then show "ids_fresh s \<Longrightarrow> ?thesis" by (simp add: ids_fresh_same[OF updateGoal_ledger(1,3)])
next
  case (DeleteGoal i)
  then show "ids_fresh s \<Longrightarrow> ?thesis" by (simp add: ids_fresh_same[OF deleteGoal_ledger(1,3)])
next
  case (AllocateFunds i b)
  then show "ids_fresh s \<Longrightarrow> ?thesis" by (simp add: allocateFunds_fresh)
next
  case (WithdrawFunds i b)
  then show "ids_fresh s \<Longrightarrow> ?thesis" by (simp add: withdrawFunds_fresh)
qed

lemma handle_balanced:
  assumes "balanced s" and "ids_fresh s" and "plain_update r"
    and "in_range s" and "in_range (snd (handle s r))"
  shows "balanced (snd (handle s r))"
proof (cases r)
  case (CreateTransaction b)
  with assms show ?thesis by (simp add: createTransaction_balanced)
next
  case (UpdateTransaction i b)
  with assms show ?thesis by (simp add: updateTransaction_balanced plain_update_def)
next
  case (DeleteTransaction i)
  with assms show ?thesis by (simp add: deleteTransaction_balanced)
next
  case (GenerateCategoriesFromTags u)
  with assms show ?thesis by (simp add: balanced_same[OF generate_ledger(1,2)])
next
  case (CreateGoal u b)
  with assms show ?thesis by (simp add: balanced_same[OF createGoal_ledger])
next
  case (UpdateGoal i b)
  with assms show ?thesis by (simp add: balanced_same[OF updateGoal_ledger(1,2)])
next
  case (DeleteGoal i)
  with assms show ?thesis by (simp add: balanced_same[OF deleteGoal_ledger(1,2)])
next
  case (AllocateFunds i b)
  with assms show ?thesis by (simp add: allocateFunds_balanced)
next
  case (WithdrawFunds i b)
  with assms show ?thesis by (simp add: withdrawFunds_balanced)
qed

text \<open>
  Apart from the fallback, the ledger conserves the balance while its amounts stay in the
  range in which the Number arithmetic is exact: from a store in which every account balance
  is the signed sum of the account's transactions, every sequence of requests that runs in
  range and in which no update carries \<open>nominal = 0\<close>, an empty \<open>tipe\<close> or an \<open>id_akun\<close> leads
  to such a store.
\<close>

lemma balance_conserved_without_fallback:
  "balanced s \<Longrightarrow> ids_fresh s \<Longrightarrow> list_all plain_update rs \<Longrightarrow> run_in_range s rs \<Longrightarrow>
     balanced (run s rs)"
proof (induction rs arbitrary: s)
  case Nil
  then show ?case by simp
next
  case (Cons r rs)
  from Cons.prems(4) have r: "in_range s" "run_in_range (snd (handle s r)) rs" by simp_all
  from r(2) have "in_range (snd (handle s r))" by (rule run_in_range_head)
  with Cons.prems r(1) have "balanced (snd (handle s r))" by (simp add: handle_balanced)
  moreover from Cons.prems(2) have "ids_fresh (snd (handle s r))" by (rule handle_fresh)
  moreover from Cons.prems(3) have "list_all plain_update rs" by simp
  ultimately have "balanced (run (snd (handle s r)) rs)" using r(2) by (rule Cons.IH)
  then show ?case by simp
qed

section \<open>Category totals apart from the goal transaction records\<close>

lemma tag_hits_key:
  "tag_hits uid tp tgs (uid', nm, ty) =
     (if uid' = uid \<and> ty = tp \<and> \<not> blank nm then count_list tgs nm else 0)"
  by (induction tgs) (auto simp: tag_hits_Nil tag_hits_Cons)

lemma updateCategoryBalances_occ:
  assumes "updateCategoryBalances t r cats = Some cats'"
    and "\<bar>nominal t\<bar> \<le> 2 ^ 53"
    and "\<forall>k. \<bar>cat_bal cats k\<bar> + int (length (tags t)) * \<bar>nominal t\<bar> \<le> 2 ^ 53"
  shows "(blank nm \<longrightarrow> cats' (uid, nm, ty) = cats (uid, nm, ty)) \<and>
         (\<not> blank nm \<longrightarrow> cat_bal cats' (uid, nm, ty) =
            cat_bal cats (uid, nm, ty) + (if r then - 1 else 1) * occ t (uid, nm, ty))"
proof -
  let ?amt = "nominal t * (if r then - 1 else 1)"
  from assms(2) have "js_mul (nominal t) (if r then - 1 else 1) = ?amt"
    by (simp add: js_mul_exact)
  with assms(1) have p: "updateCategoryBalances_loop (id_akun t) (tipe t) ?amt (tags t) cats = Some cats'"
    by (simp add: updateCategoryBalances_def Let_def)
  have "\<bar>?amt\<bar> = \<bar>nominal t\<bar>" by simp
  with assms(3) have b: "\<forall>k. \<bar>cat_bal cats k\<bar> + int (length (tags t)) * \<bar>?amt\<bar> \<le> 2 ^ 53"
    by simp
  from loop_effect[OF p b, of "(uid, nm, ty)"] show ?thesis
    by (auto simp: tag_hits_key cat_bal_def occ_def split: option.splits)
qed

lemma occ_bound: "\<bar>occ t k\<bar> \<le> int (length (tags t)) * \<bar>nominal t\<bar>"
proof -
  obtain uid nm ty where k: "k = (uid, nm, ty)" by (cases k)
  have "\<bar>nominal t * int (count_list (tags t) nm)\<bar> = int (count_list (tags t) nm) * \<bar>nominal t\<bar>"
    by (simp add: abs_mult)
  also have "\<dots> \<le> int (length (tags t)) * \<bar>nominal t\<bar>"
    by (intro mult_right_mono) (simp_all add: count_le_length)
  finally show ?thesis using k by (simp add: occ_def)
qed

lemma occ_total_append: "occ_total (txs @ [t]) k = occ_total txs k + occ t k"
  by (simp add: occ_total_def)

lemma occ_total_delete:
  "distinct (map tx_id txs) \<Longrightarrow> findById i txs = Some t \<Longrightarrow>
     occ_total (findByIdAndDelete i txs) k = occ_total txs k - occ t k"
proof (induction txs)
  case Nil
  then show ?case by (simp add: findById_def)
next
  case (Cons x txs)
  show ?case
  proof (cases "tx_id x = i")
    case True
    with Cons.prems have "x = t" "i \<notin> tx_id ` set txs" by (auto simp: findById_def)
    then show ?thesis using True delete_absent[of i txs]
      by (auto simp: occ_total_def findByIdAndDelete_def)
  next
    case False
    with Cons.prems have "findById i txs = Some t" "distinct (map tx_id txs)"
      by (auto simp: findById_def)
    from Cons.IH[OF this(2,1)] False show ?thesis
      by (auto simp: occ_total_def findByIdAndDelete_def)
  qed
qed

lemma occ_total_update:
  "distinct (map tx_id txs) \<Longrightarrow> findById i txs = Some t \<Longrightarrow>
     occ_total (findByIdAndUpdate i b txs) k = occ_total txs k - occ t k + occ (apply_body b t) k"
proof (induction txs)
  case Nil
  then show ?case by (simp add: findById_def)
next
  case (Cons x txs)
  show ?case
  proof (cases "tx_id x = i")
    case True
    with Cons.prems have "x = t" "i \<notin> tx_id ` set txs" by (auto simp: findById_def)
    then show ?thesis using True update_absent[of i txs b]
      by (auto simp: occ_total_def findByIdAndUpdate_def)
  next
    case False
    with Cons.prems have "findById i txs = Some t" "distinct (map tx_id txs)"
      by (auto simp: findById_def)
    from Cons.IH[OF this(2,1)] False show ?thesis
      by (auto simp: occ_total_def findByIdAndUpdate_def)
  qed
qed

lemma createTransaction_match:
  assumes "cats_match s" and "in_range s" and "in_range (snd (createTransaction s b))"
  shows "cats_match (snd (createTransaction s b))"
proof (cases "snd (createTransaction s b) = s")
  case True
  with assms show ?thesis by simp
next
  case False
  then obtain t cats' where
    c: "updateCategoryBalances t False (categories s) = Some cats'"
       "categories (snd (createTransaction s b)) = cats'"
       "transactions (snd (createTransaction s b)) = transactions s @ [t]"
    by (auto simp: createTransaction_def Let_def split: option.splits)
  from c(3) have "t \<in> set (transactions (snd (createTransaction s b)))" by simp
  note n = in_range_tx[OF assms(3) this]
  from n(1) have n1: "\<bar>nominal t\<bar> \<le> 2 ^ 53" by simp
  have bnd: "\<forall>k. \<bar>cat_bal (categories s) k\<bar> + int (length (tags t)) * \<bar>nominal t\<bar> \<le> 2 ^ 53"
  proof
    fix k
    from in_range_cat[OF assms(2), of k] n(2)
    show "\<bar>cat_bal (categories s) k\<bar> + int (length (tags t)) * \<bar>nominal t\<bar> \<le> 2 ^ 53" by simp
  qed
  show ?thesis
    unfolding cats_match_def
  proof (intro allI)
    fix uid nm ty
    from updateCategoryBalances_occ[OF c(1) n1 bnd, of nm uid ty] assms(1)
    show "(blank nm \<longrightarrow> categories (snd (createTransaction s b)) (uid, nm, ty) = None) \<and>
          (\<not> blank nm \<longrightarrow> cat_bal (categories (snd (createTransaction s b))) (uid, nm, ty) =
             occ_total (transactions (snd (createTransaction s b))) (uid, nm, ty))"
      by (simp add: c(2,3) occ_total_append cats_match_def)
  qed
qed

lemma deleteTransaction_match:
  assumes "cats_match s" and "ids_fresh s" and "in_range s"
  shows "cats_match (snd (deleteTransaction s i))"
proof (cases "snd (deleteTransaction s i) = s")
  case True
  with assms show ?thesis by simp
next
  case False
  then obtain t cats' where
    c: "findById i (transactions s) = Some t"
       "updateCategoryBalances t True (categories s) = Some cats'"
       "categories (snd (deleteTransaction s i)) = cats'"
       "transactions (snd (deleteTransaction s i)) = findByIdAndDelete i (transactions s)"
    by (auto simp: deleteTransaction_def Let_def split: option.splits)
  from assms(2) have d: "distinct (map tx_id (transactions s))" by (simp add: ids_fresh_def)
  from findById_mem[OF c(1)] have "t \<in> set (transactions s)" by simp
  note n = in_range_tx[OF assms(3) this]
  from n(1) have n1: "\<bar>nominal t\<bar> \<le> 2 ^ 53" by simp
  have bnd: "\<forall>k. \<bar>cat_bal (categories s) k\<bar> + int (length (tags t)) * \<bar>nominal t\<bar> \<le> 2 ^ 53"
  proof
    fix k
    from in_range_cat[OF assms(3), of k] n(2)
    show "\<bar>cat_bal (categories s) k\<bar> + int (length (tags t)) * \<bar>nominal t\<bar> \<le> 2 ^ 53" by simp
  qed
  show ?thesis
    unfolding cats_match_def
  proof (intro allI)
    fix uid nm ty
    from updateCategoryBalances_occ[OF c(2) n1 bnd, of nm uid ty] assms(1)
    show "(blank nm \<longrightarrow> categories (snd (deleteTransaction s i)) (uid, nm, ty) = None) \<and>
          (\<not> blank nm \<longrightarrow> cat_bal (categories (snd (deleteTransaction s i))) (uid, nm, ty) =
             occ_total (transactions (snd (deleteTransaction s i))) (uid, nm, ty))"
      by (simp add: c(3,4) occ_total_delete[OF d c(1)] cats_match_def)
  qed
qed

lemma updateTransaction_match:
  assumes "cats_match s" and "ids_fresh s"
    and "in_range s" and "in_range (snd (updateTransaction s i b))"
  shows "cats_match (snd (updateTransaction s i b))"
proof (cases "snd (updateTransaction s i b) = s")
  case True
  with assms show ?thesis by simp
next
  case False
  then obtain t cats1 cats2 where
    c: "findById i (transactions s) = Some t"
       "updateCategoryBalances t True (categories s) = Some cats1"
       "updateCategoryBalances (apply_body b t) False cats1 = Some cats2"
       "categories (snd (updateTransaction s i b)) = cats2"
       "transactions (snd (updateTransaction s i b)) = findByIdAndUpdate i b (transactions s)"
    by (auto simp: updateTransaction_def Let_def split: option.splits)
  let ?t' = "apply_body b t"
  from assms(2) have d: "distinct (map tx_id (transactions s))" by (simp add: ids_fresh_def)
  from findById_mem[OF c(1)] have "t \<in> set (transactions s)" by simp
  note n = in_range_tx[OF assms(3) this]
  from n(1) have n1: "\<bar>nominal t\<bar> \<le> 2 ^ 53" by simp
  from findById_updated[OF c(1), of b] c(5)
  have "?t' \<in> set (transactions (snd (updateTransaction s i b)))" by simp
  note n' = in_range_tx[OF assms(4) this]
  from n'(1) have n1': "\<bar>nominal ?t'\<bar> \<le> 2 ^ 53" by simp
  have bnd: "\<forall>k. \<bar>cat_bal (categories s) k\<bar> + int (length (tags t)) * \<bar>nominal t\<bar> \<le> 2 ^ 53"
  proof
    fix k
    from in_range_cat[OF assms(3), of k] n(2)
    show "\<bar>cat_bal (categories s) k\<bar> + int (length (tags t)) * \<bar>nominal t\<bar> \<le> 2 ^ 53" by simp
  qed
  note o1 = updateCategoryBalances_occ[OF c(2) n1 bnd]
  have bnd': "\<forall>k. \<bar>cat_bal cats1 k\<bar> + int (length (tags ?t')) * \<bar>nominal ?t'\<bar> \<le> 2 ^ 53"
  proof
    fix k :: category_key
    obtain uid nm ty where k: "k = (uid, nm, ty)" by (cases k)
    from o1[of nm uid ty] k
    have "cat_bal cats1 k = cat_bal (categories s) k \<or>
          cat_bal cats1 k = cat_bal (categories s) k - occ t k"
      by (cases "blank nm") (simp_all add: cat_bal_def)
    with occ_bound[of t k] n(2) have "\<bar>cat_bal cats1 k\<bar> \<le> \<bar>cat_bal (categories s) k\<bar> + 2 ^ 51"
      by auto
    with in_range_cat[OF assms(3), of k] n'(2)
    show "\<bar>cat_bal cats1 k\<bar> + int (length (tags ?t')) * \<bar>nominal ?t'\<bar> \<le> 2 ^ 53" by simp
  qed
  show ?thesis
    unfolding cats_match_def
  proof (intro allI)
    fix uid nm ty
    from o1[of nm uid ty]
         updateCategoryBalances_occ[OF c(3) n1' bnd', of nm uid ty] assms(1)
    show "(blank nm \<longrightarrow> categories (snd (updateTransaction s i b)) (uid, nm, ty) = None) \<and>
          (\<not> blank nm \<longrightarrow> cat_bal (categories (snd (updateTransaction s i b))) (uid, nm, ty) =
             occ_total (transactions (snd (updateTransaction s i b))) (uid, nm, ty))"
      by (simp add: c(4,5) occ_total_update[OF d c(1)] cats_match_def)
  qed
qed

lemma funds_without_record:
  "\<not> fb_create_transaction b \<Longrightarrow>
     transactions (snd (allocateFunds s i b)) = transactions s \<and>
     categories (snd (allocateFunds s i b)) = categories s"
  "\<not> fb_create_transaction b \<Longrightarrow>
     transactions (snd (withdrawFunds s i b)) = transactions s \<and>
     categories (snd (withdrawFunds s i b)) = categories s"
  by (simp_all add: allocateFunds_def withdrawFunds_def Let_def split: option.splits)

lemma goal_requests_categories:
  "categories (snd (createGoal s u gb)) = categories s"
  "categories (snd (updateGoal s i gb)) = categories s"
  "categories (snd (deleteGoal s i)) = categories s"
  by (simp_all add: createGoal_def updateGoal_def deleteGoal_def Let_def split: option.splits)

lemma cats_match_same:
  "transactions s' = transactions s \<Longrightarrow> categories s' = categories s \<Longrightarrow> cats_match s \<Longrightarrow> cats_match s'"
  by (simp add: cats_match_def)

lemma handle_match:
  assumes "cats_match s" and "ids_fresh s" and "keeps_categories r"
    and "in_range s" and "in_range (snd (handle s r))"
  shows "cats_match (snd (handle s r))"
proof (cases r)
  case (CreateTransaction b)
  with assms show ?thesis by (simp add: createTransaction_match)
next
  case (UpdateTransaction i b)
  with assms show ?thesis by (simp add: updateTransaction_match)
next
  case (DeleteTransaction i)
  with assms show ?thesis by (simp add: deleteTransaction_match)
next
  case (GenerateCategoriesFromTags u)
  with assms show ?thesis by (simp add: keeps_categories_def)
next
  case (CreateGoal u b)
  with assms show ?thesis by (simp add: cats_match_same[OF createGoal_ledger(1) goal_requests_categories(1)])
next
  case (UpdateGoal i b)
  with assms show ?thesis by (simp add: cats_match_same[OF updateGoal_ledger(1) goal_requests_categories(2)])
next
  case (DeleteGoal i)
  with assms show ?thesis by (simp add: cats_match_same[OF deleteGoal_ledger(1) goal_requests_categories(3)])
next
  case (AllocateFunds i b)
  with assms have "\<not> fb_create_transaction b" by (simp add: keeps_categories_def)
  from funds_without_record(1)[OF this, of s i] assms(1) AllocateFunds show ?thesis
    by (simp add: cats_match_same)
next
  case (WithdrawFunds i b)
  with assms have "\<not> fb_create_transaction b" by (simp add: keeps_categories_def)
  from funds_without_record(2)[OF this, of s i] assms(1) WithdrawFunds show ?thesis
    by (simp add: cats_match_same)
qed

lemma run_match:
  "cats_match s \<Longrightarrow> ids_fresh s \<Longrightarrow> list_all keeps_categories rs \<Longrightarrow> run_in_range s rs \<Longrightarrow>
     cats_match (run s rs)"
proof (induction rs arbitrary: s)
  case Nil
  then show ?case by simp
next
  case (Cons r rs)
  from Cons.prems(4) have r: "in_range s" "run_in_range (snd (handle s r)) rs" by simp_all
  from r(2) have "in_range (snd (handle s r))" by (rule run_in_range_head)
  with Cons.prems r(1) have "cats_match (snd (handle s r))" by (simp add: handle_match)
  moreover from Cons.prems(2) have "ids_fresh (snd (handle s r))" by (rule handle_fresh)
  moreover from Cons.prems(3) have "list_all keeps_categories rs" by simp
  ultimately have "cats_match (run (snd (handle s r)) rs)" using r(2) by (rule Cons.IH)
  then show ?case by simp
qed

lemma count_list_distinct: "distinct xs \<Longrightarrow> count_list xs x = (if x \<in> set xs then 1 else 0)"
  by (induction xs) auto

lemma occ_total_tag_total:
  "\<forall>t\<in>set (transactions s). distinct (tags t) \<Longrightarrow> occ_total (transactions s) k = tag_total s k"
proof -
  assume d: "\<forall>t\<in>set (transactions s). distinct (tags t)"
  obtain uid nm ty where k: "k = (uid, nm, ty)" by (cases k)
  have "\<forall>t\<in>set txs. distinct (tags t) \<Longrightarrow>
        (\<Sum>t\<leftarrow>txs. occ t (uid, nm, ty)) =
        sum_list (map nominal (filter (\<lambda>t. id_akun t = uid \<and> tipe t = ty \<and> nm \<in> set (tags t)) txs))" for txs
    by (induction txs) (auto simp: occ_def count_list_distinct)
  with d k show ?thesis by (simp add: occ_total_def tag_total_def)
qed

text \<open>
  Apart from the transaction records of allocateFunds and withdrawFunds, the ledger keeps
  the category totals: from a store in which every category holds the sum over the tagged
  transactions (a transaction counting once for each occurrence of the tag), every sequence of
  transaction and goal requests that records no allocation or withdrawal leads to such a
  store; when no transaction repeats a tag, each stored balance is the sum of \<open>nominal\<close> over
  the transactions carrying the tag.
\<close>

lemma category_totals_without_record:
  assumes "cats_match s" and "ids_fresh s" and "list_all keeps_categories rs"
    and "run_in_range s rs"
    and "\<forall>t\<in>set (transactions (run s rs)). distinct (tags t)"
    and "categories (run s rs) k = Some v"
  shows "v = tag_total (run s rs) k"
proof -
  obtain uid nm ty where k: "k = (uid, nm, ty)" by (cases k)
  from run_match[OF assms(1-4)] have m: "cats_match (run s rs)" .
  with assms(6) k have "\<not> blank nm" by (auto simp: cats_match_def)
  with m have "cat_bal (categories (run s rs)) (uid, nm, ty) =
               occ_total (transactions (run s rs)) (uid, nm, ty)"
    by (simp add: cats_match_def)
  with assms(6) k have "v = occ_total (transactions (run s rs)) k"
    by (simp add: cat_bal_def)
  with occ_total_tag_total[OF assms(5)] show ?thesis by simp
qed

end
